theory Spec2Isabelle
  imports Main "HOL-Library.Char_ord" "HOL-Library.List_Lexorder" "HOL-Library.Product_Lexorder"
begin

section \<open>Python string operations used by the scripts\<close>

text \<open>
  Strings are byte strings here; the operations below are the ASCII behaviour of
  \<^verbatim>\<open>str.strip\<close>, \<^verbatim>\<open>str.lower\<close>, \<^verbatim>\<open>str.replace\<close> (for one-character patterns),
  \<^verbatim>\<open>str.endswith\<close>, \<^verbatim>\<open>in\<close>, \<^verbatim>\<open>str.split(" ")[0]\<close> and \<^verbatim>\<open>str.rsplit(" ", 1)\<close>.
\<close>

definition is_space :: "char \<Rightarrow> bool" where
  "is_space c = (let n = (of_char c :: nat) in (9 \<le> n \<and> n \<le> 13) \<or> (28 \<le> n \<and> n \<le> 32))"

definition strip :: "string \<Rightarrow> string" where
  "strip s = rev (dropWhile is_space (rev (dropWhile is_space s)))"

definition lower_char :: "char \<Rightarrow> char" where
  "lower_char c = (let n = (of_char c :: nat) in
     if 65 \<le> n \<and> n \<le> 90
     then Char (digit0 c) (digit1 c) (digit2 c) (digit3 c) (digit4 c) True (digit6 c) (digit7 c)
     else c)"

definition lower :: "string \<Rightarrow> string" where
  "lower s = map lower_char s"

definition replace_char :: "char \<Rightarrow> string \<Rightarrow> string \<Rightarrow> string" where
  "replace_char old new s = concat (map (\<lambda>c. if c = old then new else [c]) s)"

definition endswith :: "string \<Rightarrow> string \<Rightarrow> bool" where
  "endswith s suffix = (length suffix \<le> length s \<and> drop (length s - length suffix) s = suffix)"

fun startswith :: "string \<Rightarrow> string \<Rightarrow> bool" where
  "startswith s [] = True"
| "startswith [] (p # ps) = False"
| "startswith (c # cs) (p # ps) = (c = p \<and> startswith cs ps)"

fun contains :: "string \<Rightarrow> string \<Rightarrow> bool" where
  "contains [] sub = (sub = [])"
| "contains (c # cs) sub = (startswith (c # cs) sub \<or> contains cs sub)"

definition split_first :: "string \<Rightarrow> string" where
  "split_first s = takeWhile (\<lambda>c. c \<noteq> CHR '' '') s"

definition rsplit_space :: "string \<Rightarrow> string \<times> string" where
  "rsplit_space s =
     (let tl_rev = takeWhile (\<lambda>c. c \<noteq> CHR '' '') (rev s)
      in (take (length s - length tl_rev - 1) s, rev tl_rev))"

section \<open>Table cells and the canonical tables\<close>

text \<open>
  A cell of a frame read from CSV, as the conversions of the scripts see it:
  \<open>NaN\<close> is a missing value (\<^verbatim>\<open>pd.notna\<close> is false), \<open>Blank\<close> a text cell that is empty
  after \<^verbatim>\<open>strip\<close>, \<open>Num n\<close> a cell whose integer conversion returns \<open>n\<close>, and \<open>Bad\<close> a
  non-blank cell on which the conversion raises.
\<close>

datatype cell = NaN | Blank | Num int | Bad

record game =
  game_id :: string
  date :: string
  league :: string
  season_type :: string
  home_team_id :: string
  away_team_id :: string
  home_score :: cell
  away_score :: cell
  winning_team_id :: "string option"

text \<open>
  The text columns of \<open>game\<close> hold \<^verbatim>\<open>str(cell)\<close>; \<open>winning_team_id\<close> is \<open>None\<close> for a
  missing value.
\<close>

section \<open>Outcome scorer and ledger builder (compute\_team\_game\_results.py)\<close>

type_synonym weights = "string \<rightharpoonup> int"

definition default_weights :: weights where
  "default_weights =
     [''regular_season_win'' \<mapsto> 1, ''regular_season_loss'' \<mapsto> - 1,
      ''playoff_win'' \<mapsto> 3, ''playoff_loss'' \<mapsto> - 3]"

text \<open>The argument is the parsed content of config/scoring.json, \<open>None\<close> when the file does not exist.\<close>

definition load_scoring_weights :: "weights option \<Rightarrow> weights" where
  "load_scoring_weights scoring_json =
     (case scoring_json of None \<Rightarrow> default_weights | Some w \<Rightarrow> w)"

definition dict_get :: "('k \<rightharpoonup> 'v) \<Rightarrow> 'k \<Rightarrow> 'v \<Rightarrow> 'v" where
  "dict_get m k d = (case m k of None \<Rightarrow> d | Some v \<Rightarrow> v)"

text \<open>One score conversion: \<open>Inl ()\<close> when \<^verbatim>\<open>int(...)\<close> raises.\<close>

definition parse_score :: "cell \<Rightarrow> unit + int option" where
  "parse_score c =
     (case c of NaN \<Rightarrow> Inr None | Blank \<Rightarrow> Inr None | Num n \<Rightarrow> Inr (Some n) | Bad \<Rightarrow> Inl ())"

text \<open>The \<^verbatim>\<open>try\<close> block around both conversions: an exception in either clears both scores.\<close>

definition parse_scores :: "cell \<Rightarrow> cell \<Rightarrow> int option \<times> int option" where
  "parse_scores h a =
     (case parse_score h of
        Inl _ \<Rightarrow> (None, None)
      | Inr hs \<Rightarrow> (case parse_score a of Inl _ \<Rightarrow> (None, None) | Inr as \<Rightarrow> (hs, as)))"

definition parse_winner :: "string option \<Rightarrow> string option" where
  "parse_winner w =
     (case w of None \<Rightarrow> None | Some s \<Rightarrow> if strip s \<noteq> [] then Some s else None)"

definition weight_for :: "weights \<Rightarrow> string \<Rightarrow> int \<Rightarrow> int" where
  "weight_for w st base =
     (if base = 1 then
        dict_get w (if st = ''playoff'' then ''playoff_win'' else ''regular_season_win'') 1
      else if base = - 1 then
        dict_get w (if st = ''playoff'' then ''playoff_loss'' else ''regular_season_loss'') (- 1)
      else 0)"

record ledger_entry =
  r_game_id :: string
  r_date :: string
  r_league :: string
  r_season_type :: string
  team_id :: string
  opponent_team_id :: string
  is_home :: bool
  team_score :: "int option"
  opponent_score :: "int option"
  result :: string
  index_score :: int
  weighted_score :: int

text \<open>The body of the loop over the games: the home row, then the away row.\<close>

definition game_rows :: "weights \<Rightarrow> game \<Rightarrow> ledger_entry list" where
  "game_rows w g =
     (let date_str = take 10 (date g);
          lg = lower (league g);
          st = lower (season_type g);
          home_id = home_team_id g;
          away_id = away_team_id g;
          scores = parse_scores (home_score g) (away_score g);
          hs = fst scores;
          as = snd scores;
          win = parse_winner (winning_team_id g);
          complete = (hs \<noteq> None \<and> as \<noteq> None \<and> win \<noteq> None);
          home_result = (if complete then (if win = Some home_id then ''W'' else ''L'') else '''');
          away_result = (if complete then (if win = Some away_id then ''W'' else ''L'') else '''');
          base_home = (if complete then (if home_result = ''W'' then 1 else - 1) else 0);
          base_away = (if complete then (if away_result = ''W'' then 1 else - 1) else 0);
          weighted_home = base_home * \<bar>weight_for w st base_home\<bar>;
          weighted_away = base_away * \<bar>weight_for w st base_away\<bar>
      in [\<lparr>r_game_id = game_id g, r_date = date_str, r_league = lg, r_season_type = st,
           team_id = home_id, opponent_team_id = away_id, is_home = True,
           team_score = hs, opponent_score = as, result = home_result,
           index_score = base_home, weighted_score = weighted_home\<rparr>,
          \<lparr>r_game_id = game_id g, r_date = date_str, r_league = lg, r_season_type = st,
           team_id = away_id, opponent_team_id = home_id, is_home = False,
           team_score = as, opponent_score = hs, result = away_result,
           index_score = base_away, weighted_score = weighted_away\<rparr>])"

section \<open>Calendar dates\<close>

text \<open>
  A timestamp at midnight is its day number, counted from 1970-01-01 (a Thursday).
  \<open>days_from_civil\<close> and \<open>civil_from_days\<close> convert between day numbers and the
  proleptic Gregorian calendar.
\<close>

definition days_from_civil :: "int \<Rightarrow> int \<Rightarrow> int \<Rightarrow> int" where
  "days_from_civil y m d =
     (let y1 = (if m \<le> 2 then y - 1 else y);
          era = y1 div 400;
          yoe = y1 - era * 400;
          doy = (153 * (if m > 2 then m - 3 else m + 9) + 2) div 5 + d - 1;
          doe = yoe * 365 + yoe div 4 - yoe div 100 + doy
      in era * 146097 + doe - 719468)"

definition civil_from_days :: "int \<Rightarrow> int \<times> int \<times> int" where
  "civil_from_days z =
     (let z1 = z + 719468;
          era = z1 div 146097;
          doe = z1 - era * 146097;
          yoe = (doe - doe div 1460 + doe div 36524 - doe div 146096) div 365;
          doy = doe - (365 * yoe + yoe div 4 - yoe div 100);
          mp = (5 * doy + 2) div 153;
          d = doy - (153 * mp + 2) div 5 + 1;
          m = (if mp < 10 then mp + 3 else mp - 9)
      in (yoe + era * 400 + (if m \<le> 2 then 1 else 0), m, d))"

definition is_digit :: "char \<Rightarrow> bool" where
  "is_digit c = (let n = (of_char c :: nat) in 48 \<le> n \<and> n \<le> 57)"

definition digit_val :: "char \<Rightarrow> int" where
  "digit_val c = int (of_char c) - 48"

definition digits_val :: "string \<Rightarrow> int" where
  "digits_val s = foldl (\<lambda>acc c. 10 * acc + digit_val c) 0 s"

definition digit_char :: "int \<Rightarrow> char" where
  "digit_char n = ''0123456789'' ! nat (n mod 10)"

definition pad2 :: "int \<Rightarrow> string" where
  "pad2 n = [digit_char (n div 10 mod 10), digit_char (n mod 10)]"

definition pad4 :: "int \<Rightarrow> string" where
  "pad4 n = [digit_char (n div 1000 mod 10), digit_char (n div 100 mod 10),
             digit_char (n div 10 mod 10), digit_char (n mod 10)]"

text \<open>\<^verbatim>\<open>str(datetime.date)\<close> and \<^verbatim>\<open>strftime("%Y-%m-%d")\<close>.\<close>

definition format_date :: "int \<times> int \<times> int \<Rightarrow> string" where
  "format_date ymd = (case ymd of (y, m, d) \<Rightarrow> pad4 y @ ''-'' @ pad2 m @ ''-'' @ pad2 d)"

definition days_in_month :: "int \<Rightarrow> int \<Rightarrow> int" where
  "days_in_month y m =
     (if m = 2 then (if y mod 4 = 0 \<and> (y mod 100 \<noteq> 0 \<or> y mod 400 = 0) then 29 else 28)
      else if m = 4 \<or> m = 6 \<or> m = 9 \<or> m = 11 then 30 else 31)"

text \<open>
  \<^verbatim>\<open>pd.to_datetime(..., errors="coerce")\<close> on the layout the loaders write,
  \<^verbatim>\<open>YYYY-MM-DD\<close>: the day number of a valid date inside the range of a pandas
  timestamp, \<open>None\<close> (NaT) otherwise. Other layouts that pandas also reads are outside
  this model.
\<close>

definition to_datetime :: "string \<Rightarrow> int option" where
  "to_datetime s =
     (if length s = 10 \<and> s ! 4 = CHR ''-'' \<and> s ! 7 = CHR ''-''
         \<and> list_all is_digit (take 4 s) \<and> list_all is_digit (take 2 (drop 5 s))
         \<and> list_all is_digit (drop 8 s)
      then (let y = digits_val (take 4 s); m = digits_val (take 2 (drop 5 s));
                d = digits_val (drop 8 s); z = days_from_civil y m d
            in if 1 \<le> m \<and> m \<le> 12 \<and> 1 \<le> d \<and> d \<le> days_in_month y m
                  \<and> days_from_civil 1677 9 22 \<le> z \<and> z \<le> days_from_civil 2262 4 11
               then Some z else None)
      else None)"

text \<open>Monday is 0 and Sunday is 6, as \<^verbatim>\<open>datetime.weekday()\<close> counts.\<close>

definition weekday :: "int \<Rightarrow> int" where
  "weekday z = (z + 3) mod 7"

text \<open>
  \<^verbatim>\<open>to_period("W-MON").start_time\<close>: in pandas the anchor of a weekly frequency is the
  day a week \<^emph>\<open>ends\<close> on, so a \<^verbatim>\<open>W-MON\<close> period runs from a Tuesday to the following
  Monday, and its start is the last Tuesday on or before the date.
\<close>

definition week_period_start :: "int \<Rightarrow> int" where
  "week_period_start z = z - (weekday z - 1) mod 7"

text \<open>\<^verbatim>\<open>to_period("M").start_time\<close>: the first day of the month.\<close>

definition month_period_start :: "int \<Rightarrow> int" where
  "month_period_start z = (case civil_from_days z of (y, m, d) \<Rightarrow> days_from_civil y m 1)"

text \<open>\<^verbatim>\<open>.dt.date.astype(str)\<close>: a missing timestamp prints as NaT.\<close>

definition date_str_of :: "int option \<Rightarrow> string" where
  "date_str_of t = (case t of None \<Rightarrow> ''NaT'' | Some z \<Rightarrow> format_date (civil_from_days z))"

section \<open>The ledger table\<close>

record team_game_result = ledger_entry +
  week_start :: string
  month_start :: string

definition add_periods :: "ledger_entry \<Rightarrow> team_game_result" where
  "add_periods e =
     (let date_ts = to_datetime (r_date e)
      in ledger_entry.extend e
           \<lparr>week_start = date_str_of (map_option week_period_start date_ts),
            month_start = date_str_of (map_option month_period_start date_ts)\<rparr>)"

text \<open>
  The argument is the frame \<^verbatim>\<open>safe_read_csv\<close> returns for games.csv: no rows when the
  file does not exist. The result is sorted by \<^verbatim>\<open>(date, league, game_id, team_id)\<close>.
\<close>

definition compute_master :: "weights \<Rightarrow> game list \<Rightarrow> team_game_result list" where
  "compute_master w games =
     (if games = [] then []
      else sort_key (\<lambda>r. (r_date r, r_league r, r_game_id r, team_id r))
             (map add_periods (concat (map (game_rows w) games))))"

text \<open>Vocabulary of the properties below.\<close>

definition decisive :: "game \<Rightarrow> bool" where
  "decisive g =
     (fst (parse_scores (home_score g) (away_score g)) \<noteq> None \<and>
      snd (parse_scores (home_score g) (away_score g)) \<noteq> None \<and>
      parse_winner (winning_team_id g) \<noteq> None)"

definition configured_weight :: "weights \<Rightarrow> string \<Rightarrow> string \<Rightarrow> int" where
  "configured_weight w st res =
     (if res = ''W''
      then dict_get w (if st = ''playoff'' then ''playoff_win'' else ''regular_season_win'') 1
      else dict_get w (if st = ''playoff'' then ''playoff_loss'' else ''regular_season_loss'') (- 1))"

definition symmetric_weights :: "weights \<Rightarrow> string \<Rightarrow> bool" where
  "symmetric_weights w st = (\<bar>configured_weight w st ''W''\<bar> = \<bar>configured_weight w st ''L''\<bar>)"

definition example_game :: game where
  "example_game =
     \<lparr>game_id = ''nhl_2023-03-01_vegas-golden-knights_toronto-maple-leafs'',
      date = ''2023-03-01'', league = ''nhl'', season_type = ''regular'',
      home_team_id = ''nhl_toronto-maple-leafs'', away_team_id = ''nhl_vegas-golden-knights'',
      home_score = Num 2, away_score = Num 4,
      winning_team_id = Some ''nhl_vegas-golden-knights''\<rparr>"

text \<open>The Monday of the ISO week of a day, and example games for the properties below.\<close>

definition iso_week_monday :: "int \<Rightarrow> int" where
  "iso_week_monday z = z - weekday z"

definition winner_unknown_game :: game where
  "winner_unknown_game = example_game\<lparr>winning_team_id := Some ''nhl_boston-bruins''\<rparr>"

definition unscored_game :: game where
  "unscored_game = example_game\<lparr>home_score := NaN\<rparr>"

definition blank_winner_game :: game where
  "blank_winner_game = example_game\<lparr>winning_team_id := Some ''  ''\<rparr>"

definition playoff_game :: game where
  "playoff_game = example_game\<lparr>season_type := ''Playoff''\<rparr>"

text \<open>A scoring configuration that differs from the defaults in every weight.\<close>

definition example_scoring :: weights where
  "example_scoring =
     [''regular_season_win'' \<mapsto> 2, ''regular_season_loss'' \<mapsto> - 2,
      ''playoff_win'' \<mapsto> 5, ''playoff_loss'' \<mapsto> - 4]"

text \<open>
  The key of the scoring configuration for a season type and a result, as the
  specification names the four keys.
\<close>

definition weight_key :: "string \<Rightarrow> string \<Rightarrow> string" where
  "weight_key st res =
     (if st = ''playoff''
      then (if res = ''W'' then ''playoff_win'' else ''playoff_loss'')
      else (if res = ''W'' then ''regular_season_win'' else ''regular_season_loss''))"

section \<open>Entity resolver: splitting a full team name\<close>

text \<open>
  The curated nicknames: \<^verbatim>\<open>MULTIWORD_NICKNAMES\<close> of load\_historical\_nhl.py, and
  \<^verbatim>\<open>MULTIWORD_NICKNAMES_NHL\<close> and \<^verbatim>\<open>MULTIWORD_NICKNAMES_NFL\<close> of
  concat\_leagues\_with\_city.py. The source holds each in a set and iterates over it; a list
  fixes one iteration order. \<open>split_city_team_with\<close> is
  \<^verbatim>\<open>split_city_team(full_name, multiword_nicknames)\<close> of concat\_leagues\_with\_city.py, for
  any order; the function of the NHL loader has the same body over its own set.
\<close>

definition MULTIWORD_NICKNAMES :: "string list" where
  "MULTIWORD_NICKNAMES = [''Maple Leafs'', ''Blue Jackets'', ''Golden Knights'', ''Red Wings'']"

definition MULTIWORD_NICKNAMES_NHL :: "string list" where
  "MULTIWORD_NICKNAMES_NHL = [''Maple Leafs'', ''Blue Jackets'', ''Golden Knights'', ''Red Wings'']"

definition MULTIWORD_NICKNAMES_NFL :: "string list" where
  "MULTIWORD_NICKNAMES_NFL = [''Football Team'', ''Commanders'', ''49ers'']"

text \<open>\<^verbatim>\<open>name[: -n]\<close>: for \<open>n = 0\<close> Python's slice is empty.\<close>

definition drop_last :: "nat \<Rightarrow> string \<Rightarrow> string" where
  "drop_last n s = (if n = 0 then [] else take (length s - n) s)"

definition split_city_team_with :: "string list \<Rightarrow> string \<Rightarrow> string \<times> string" where
  "split_city_team_with nicknames full_name =
     (let name = strip full_name in
      if name = [] then ([], [])
      else
        (case find (endswith name) nicknames of
           Some nick \<Rightarrow>
             (let city = strip (drop_last (length nick) name)
              in (if endswith city '' '' then butlast city else city, nick))
         | None \<Rightarrow>
             if CHR '' '' \<in> set name then rsplit_space name else (name, [])))"

definition split_city_team :: "string \<Rightarrow> string \<times> string" where
  "split_city_team full_name = split_city_team_with MULTIWORD_NICKNAMES full_name"

text \<open>
  The fallback in the words of the specification: a split at the last whitespace character
  of the name. A name with a tab between two words and no space, and a name of spaces only.
\<close>

definition spec_split_last_whitespace :: "string \<Rightarrow> string \<times> string" where
  "spec_split_last_whitespace s =
     (let tl_rev = takeWhile (\<lambda>c. \<not> is_space c) (rev s)
      in (take (length s - length tl_rev - 1) s, rev tl_rev))"

definition tab_name :: string where
  "tab_name = ''Vegas'' @ [CHR 0x09] @ ''Knights''"

definition blank_name :: string where
  "blank_name = ''  ''"

section \<open>The NHL historical loader (load\_historical\_nhl.py)\<close>

record city =
  city_id :: string
  city_name :: string
  state :: string
  country :: string
  slug :: string

record team =
  t_team_id :: string
  team_name :: string
  t_league :: string
  t_city_id :: string
  t_city_name :: string
  start_date :: string
  end_date :: string
  alt_names :: string

text \<open>A row of the raw NHL games file; the text columns hold \<^verbatim>\<open>str(r.get(...))\<close>.\<close>

record nhl_raw =
  n_Date :: string
  n_Away :: string
  n_Home :: string
  n_AwayGoals :: cell
  n_HomeGoals :: cell
  n_Type :: string

definition slugify :: "string \<Rightarrow> string" where
  "slugify text =
     replace_char (CHR ''/'') ''-''
       (replace_char (CHR ''.'') [] (replace_char (CHR '' '') ''-'' (lower (strip text))))"

text \<open>
  The persisted canonical tables: \<open>None\<close> is a file that does not exist. \<^verbatim>\<open>safe_read_csv\<close>
  gives a frame without rows for a missing file. A table is the list of its rows as the
  loader wrote them; the CSV text itself is not modelled.
\<close>

record store =
  cities_csv :: "city list option"
  teams_csv :: "team list option"
  games_csv :: "game list option"

definition safe_read_csv :: "'a list option \<Rightarrow> 'a list" where
  "safe_read_csv f = (case f of None \<Rightarrow> [] | Some rows \<Rightarrow> rows)"

text \<open>The variables the loop over the raw rows updates.\<close>

record nhl_acc =
  new_city_rows :: "city list"
  new_team_rows :: "team list"
  new_game_rows :: "game list"
  existing_city_ids :: "string set"
  existing_team_ids :: "string set"

definition ensure_city :: "string \<Rightarrow> nhl_acc \<Rightarrow> nhl_acc" where
  "ensure_city c acc =
     (if c \<noteq> [] \<and> slugify c \<notin> existing_city_ids acc
      then acc\<lparr>new_city_rows := new_city_rows acc @
                  [\<lparr>city_id = slugify c, city_name = c, state = [], country = ''USA'',
                    slug = slugify c\<rparr>],
                existing_city_ids := insert (slugify c) (existing_city_ids acc)\<rparr>
      else acc)"

definition ensure_team :: "string \<Rightarrow> string \<Rightarrow> string \<Rightarrow> nhl_acc \<Rightarrow> nhl_acc" where
  "ensure_team full c nick acc =
     (if ''nhl_'' @ slugify full \<notin> existing_team_ids acc
      then acc\<lparr>new_team_rows := new_team_rows acc @
                  [\<lparr>t_team_id = ''nhl_'' @ slugify full, team_name = full, t_league = ''nhl'',
                    t_city_id = slugify c, t_city_name = c, start_date = [], end_date = [],
                    alt_names = nick\<rparr>],
                existing_team_ids := insert (''nhl_'' @ slugify full) (existing_team_ids acc)\<rparr>
      else acc)"

text \<open>\<^verbatim>\<open>int(float(x)) if pd.notna(x) else None\<close>: \<open>Inl ()\<close> when the conversion raises.\<close>

definition parse_goal :: "cell \<Rightarrow> unit + int option" where
  "parse_goal c =
     (case c of NaN \<Rightarrow> Inr None | Num n \<Rightarrow> Inr (Some n) | Blank \<Rightarrow> Inl () | Bad \<Rightarrow> Inl ())"

definition parse_goals :: "cell \<Rightarrow> cell \<Rightarrow> int option \<times> int option" where
  "parse_goals away_goals home_goals =
     (case parse_goal away_goals of
        Inl _ \<Rightarrow> (None, None)
      | Inr a \<Rightarrow> (case parse_goal home_goals of Inl _ \<Rightarrow> (None, None) | Inr h \<Rightarrow> (a, h)))"

definition nhl_winner :: "int option \<Rightarrow> int option \<Rightarrow> string \<Rightarrow> string \<Rightarrow> string" where
  "nhl_winner a_goals h_goals away_team home_team =
     (case (a_goals, h_goals) of
        (Some a, Some h) \<Rightarrow> if a > h then away_team else if h > a then home_team else []
      | _ \<Rightarrow> [])"

definition score_cell :: "int option \<Rightarrow> cell" where
  "score_cell s = (case s of Some n \<Rightarrow> Num n | None \<Rightarrow> Blank)"

definition nhl_game :: "nhl_raw \<Rightarrow> game" where
  "nhl_game r =
     (let dt = split_first (strip (n_Date r));
          away_full = strip (n_Away r);
          home_full = strip (n_Home r);
          game_type = strip (n_Type r);
          st = (if contains (lower game_type) ''playoff'' then ''playoff'' else ''regular'');
          away_team = ''nhl_'' @ slugify away_full;
          home_team = ''nhl_'' @ slugify home_full;
          goals = parse_goals (n_AwayGoals r) (n_HomeGoals r);
          a_goals = fst goals;
          h_goals = snd goals
      in \<lparr>game_id = ''nhl_'' @ dt @ ''_'' @ slugify away_full @ ''_'' @ slugify home_full,
          date = dt, league = ''nhl'', season_type = st,
          home_team_id = home_team, away_team_id = away_team,
          home_score = score_cell h_goals, away_score = score_cell a_goals,
          winning_team_id = Some (nhl_winner a_goals h_goals away_team home_team)\<rparr>)"

text \<open>One round of the loop: cities (away, home), teams (away, home), then the game.\<close>

definition nhl_row_step :: "nhl_acc \<Rightarrow> nhl_raw \<Rightarrow> nhl_acc" where
  "nhl_row_step acc r =
     (let away_full = strip (n_Away r);
          home_full = strip (n_Home r);
          away_split = split_city_team away_full;
          home_split = split_city_team home_full;
          acc1 = ensure_city (fst home_split) (ensure_city (fst away_split) acc);
          acc2 = ensure_team home_full (fst home_split) (snd home_split)
                   (ensure_team away_full (fst away_split) (snd away_split) acc1)
      in acc2\<lparr>new_game_rows := new_game_rows acc2 @ [nhl_game r]\<rparr>)"

text \<open>\<^verbatim>\<open>drop_duplicates(subset=[key], keep="first")\<close>.\<close>

fun drop_duplicates :: "('a \<Rightarrow> 'k) \<Rightarrow> 'k set \<Rightarrow> 'a list \<Rightarrow> 'a list" where
  "drop_duplicates key seen [] = []"
| "drop_duplicates key seen (x # xs) =
     (if key x \<in> seen then drop_duplicates key seen xs
      else x # drop_duplicates key (insert (key x) seen) xs)"

text \<open>
  The merge of the new game rows into the games table, as both historical loaders write
  it: the concatenation is deduplicated only when the table already has rows.
\<close>

definition merge_games :: "game list \<Rightarrow> game list \<Rightarrow> game list" where
  "merge_games processed_games new_games =
     (if new_games \<noteq> []
      then (if processed_games \<noteq> []
            then drop_duplicates game_id {} (processed_games @ new_games)
            else new_games)
      else processed_games)"

text \<open>
  The first argument is the raw NHL games file. With no raw rows the loader returns before
  it writes anything.
\<close>

definition load_nhl :: "nhl_raw list option \<Rightarrow> store \<Rightarrow> store" where
  "load_nhl nhl_games_file st =
     (let games_in = safe_read_csv nhl_games_file in
      if games_in = [] then st
      else
        (let processed_teams = safe_read_csv (teams_csv st);
             processed_cities = safe_read_csv (cities_csv st);
             processed_games = safe_read_csv (games_csv st);
             acc = foldl nhl_row_step
                     \<lparr>new_city_rows = [], new_team_rows = [], new_game_rows = [],
                      existing_city_ids = set (map city_id processed_cities),
                      existing_team_ids = set (map t_team_id processed_teams)\<rparr>
                     games_in;
             cities' = (if new_city_rows acc \<noteq> [] then processed_cities @ new_city_rows acc
                        else processed_cities);
             teams' = (if new_team_rows acc \<noteq> [] then processed_teams @ new_team_rows acc
                       else processed_teams);
             games' = merge_games processed_games (new_game_rows acc)
         in \<lparr>cities_csv = Some cities', teams_csv = Some teams', games_csv = Some games'\<rparr>))"

definition empty_store :: store where
  "empty_store = \<lparr>cities_csv = None, teams_csv = None, games_csv = None\<rparr>"

definition example_raw :: nhl_raw where
  "example_raw =
     \<lparr>n_Date = ''2023-03-01'', n_Away = ''Vegas Golden Knights'', n_Home = ''Toronto Maple Leafs'',
      n_AwayGoals = Num 4, n_HomeGoals = Num 2, n_Type = ''Regular Season''\<rparr>"

text \<open>
  Vocabulary for the loop of the loader: a raw row is covered by two id sets when its
  cities and teams are already in them.
\<close>

definition covered :: "string set \<Rightarrow> string set \<Rightarrow> nhl_raw \<Rightarrow> bool" where
  "covered cs ts r =
     ((fst (split_city_team (strip (n_Away r))) = [] \<or>
         slugify (fst (split_city_team (strip (n_Away r)))) \<in> cs) \<and>
      (fst (split_city_team (strip (n_Home r))) = [] \<or>
         slugify (fst (split_city_team (strip (n_Home r)))) \<in> cs) \<and>
      ''nhl_'' @ slugify (strip (n_Away r)) \<in> ts \<and>
      ''nhl_'' @ slugify (strip (n_Home r)) \<in> ts)"

text \<open>The invariant of the loop: the id sets are the ids of the stored and the new rows.\<close>

definition ids_inv :: "string set \<Rightarrow> string set \<Rightarrow> nhl_acc \<Rightarrow> bool" where
  "ids_inv C T acc =
     (existing_city_ids acc = C \<union> set (map city_id (new_city_rows acc)) \<and>
      existing_team_ids acc = T \<union> set (map t_team_id (new_team_rows acc)))"

text \<open>The variables of the loop when it starts, for the tables a load finds.\<close>

definition nhl_start :: "store \<Rightarrow> nhl_acc" where
  "nhl_start st =
     \<lparr>new_city_rows = [], new_team_rows = [], new_game_rows = [],
      existing_city_ids = set (map city_id (safe_read_csv (cities_csv st))),
      existing_team_ids = set (map t_team_id (safe_read_csv (teams_csv st)))\<rparr>"

section \<open>The NBA historical loader (load\_historical\_nba.py)\<close>

text \<open>
  A row of the frame \<^verbatim>\<open>games\<close> that the loader builds from the per-team rows (one row per
  \<^verbatim>\<open>GAME_ID\<close>, with the home and away abbreviations, the date and the abbreviation of the
  winner, missing when no row of the game has \<^verbatim>\<open>WL == "W"\<close>). The text columns hold
  \<^verbatim>\<open>str(g[...])\<close>. The loop below turns each such row into a canonical game row.
\<close>

record nba_game_in =
  GAME_ID :: string
  GAME_DATE :: string
  home_abbrev :: string
  away_abbrev :: string
  winner_abbrev :: "string option"

definition nba_game_row :: "(string \<rightharpoonup> string) \<Rightarrow> nba_game_in \<Rightarrow> game" where
  "nba_game_row abbrev_to_team_id g =
     (let gid = strip (GAME_ID g);
          dt = split_first (GAME_DATE g);
          home = strip (home_abbrev g);
          away = strip (away_abbrev g);
          winner = (case winner_abbrev g of None \<Rightarrow> [] | Some s \<Rightarrow> strip s);
          home_team = dict_get abbrev_to_team_id home (''nba_'' @ home);
          away_team = dict_get abbrev_to_team_id away (''nba_'' @ away);
          winning_team =
            (if winner \<noteq> [] then dict_get abbrev_to_team_id winner (''nba_'' @ winner) else [])
      in \<lparr>game_id = ''nba_'' @ gid, date = dt, league = ''nba'', season_type = ''regular'',
          home_team_id = home_team, away_team_id = away_team,
          home_score = Blank, away_score = Blank,
          winning_team_id = Some winning_team\<rparr>)"

definition nba_new_games :: "(string \<rightharpoonup> string) \<Rightarrow> nba_game_in list \<Rightarrow> game list" where
  "nba_new_games abbrev_to_team_id games = map (nba_game_row abbrev_to_team_id) games"

text \<open>The games table the NBA loader writes: the same merge as in the NHL loader.\<close>

definition nba_games_table ::
  "(string \<rightharpoonup> string) \<Rightarrow> nba_game_in list \<Rightarrow> game list option \<Rightarrow> game list" where
  "nba_games_table abbrev_to_team_id games games_file =
     merge_games (safe_read_csv games_file) (nba_new_games abbrev_to_team_id games)"

text \<open>
  A game row as \<^verbatim>\<open>read_csv\<close> gives it back after \<^verbatim>\<open>to_csv\<close> wrote it: an empty field is
  read as a missing value.
\<close>

definition read_back_game :: "game \<Rightarrow> game" where
  "read_back_game g =
     g\<lparr>home_score := (if home_score g = Blank then NaN else home_score g),
       away_score := (if away_score g = Blank then NaN else away_score g),
       winning_team_id := (if winning_team_id g = Some [] then None else winning_team_id g)\<rparr>"

definition example_nba_row :: nba_game_in where
  "example_nba_row =
     \<lparr>GAME_ID = ''22300061'', GAME_DATE = ''2023-10-24'', home_abbrev = ''DEN'',
      away_abbrev = ''LAL'', winner_abbrev = Some ''DEN''\<rparr>"

section \<open>Weekly and monthly rollups (rollups.py)\<close>

text \<open>
  The columns of team\_game\_results.csv that the rollups read, as \<^verbatim>\<open>read_csv\<close> gives
  them: a text cell that is read as a missing value is \<open>None\<close>.
\<close>

record master_row =
  m_league :: "string option"
  m_team_id :: "string option"
  m_week_start :: "string option"
  m_month_start :: "string option"
  m_index_score :: int
  m_weighted_score :: int

record 'k rollup =
  group_key :: 'k
  index_score_sum :: int
  weighted_score_sum :: int
  games :: nat

text \<open>
  \<^verbatim>\<open>df.groupby(keys, as_index=False).agg(sum, sum, count)\<close>: one row per key, in the order
  of the keys; pandas leaves out the rows that have a missing value in a key column
  (\<open>key r = None\<close>).
\<close>

definition groupby_agg :: "(master_row \<Rightarrow> 'k option) \<Rightarrow> master_row list \<Rightarrow> ('k::linorder) rollup list" where
  "groupby_agg key df =
     map (\<lambda>k. \<lparr>group_key = k,
                index_score_sum = sum_list (map m_index_score (filter (\<lambda>r. key r = Some k) df)),
                weighted_score_sum = sum_list (map m_weighted_score (filter (\<lambda>r. key r = Some k) df)),
                games = length (filter (\<lambda>r. key r = Some k) df)\<rparr>)
         (sort (remdups (List.map_filter key df)))"

definition team_week_key :: "master_row \<Rightarrow> (string \<times> string \<times> string) option" where
  "team_week_key r =
     (case (m_league r, m_team_id r, m_week_start r) of
        (Some l, Some t, Some w) \<Rightarrow> Some (l, t, w)
      | _ \<Rightarrow> None)"

definition team_month_key :: "master_row \<Rightarrow> (string \<times> string \<times> string) option" where
  "team_month_key r =
     (case (m_league r, m_team_id r, m_month_start r) of
        (Some l, Some t, Some m) \<Rightarrow> Some (l, t, m)
      | _ \<Rightarrow> None)"

text \<open>
  The teams table is read as its \<open>(team_id, city_id)\<close> columns. \<^verbatim>\<open>to_dict\<close> keeps the last
  row of a team id; \<^verbatim>\<open>map\<close> gives a missing value for a team without an entry, and
  \<^verbatim>\<open>dropna(subset=["city_id"])\<close> then drops the row.
\<close>

definition team_to_city :: "(string \<times> string option) list \<Rightarrow> string \<Rightarrow> string option" where
  "team_to_city teams t = (case map_of (rev teams) t of None \<Rightarrow> None | Some c \<Rightarrow> c)"

definition row_city :: "(string \<times> string option) list \<Rightarrow> master_row \<Rightarrow> string option" where
  "row_city teams r = (case m_team_id r of None \<Rightarrow> None | Some t \<Rightarrow> team_to_city teams t)"

definition city_week_key ::
  "(string \<times> string option) list \<Rightarrow> master_row \<Rightarrow> (string \<times> string) option" where
  "city_week_key teams r =
     (case (row_city teams r, m_week_start r) of
        (Some c, Some w) \<Rightarrow> Some (c, w)
      | _ \<Rightarrow> None)"

definition city_month_key ::
  "(string \<times> string option) list \<Rightarrow> master_row \<Rightarrow> (string \<times> string) option" where
  "city_month_key teams r =
     (case (row_city teams r, m_month_start r) of
        (Some c, Some m) \<Rightarrow> Some (c, m)
      | _ \<Rightarrow> None)"

record rollup_files =
  team_rollup_weekly :: "(string \<times> string \<times> string) rollup list"
  team_rollup_monthly :: "(string \<times> string \<times> string) rollup list"
  city_rollup_weekly :: "(string \<times> string) rollup list"
  city_rollup_monthly :: "(string \<times> string) rollup list"

text \<open>
  The arguments are team\_game\_results.csv and teams.csv, \<open>None\<close> for a file that does
  not exist. The result is \<open>None\<close> when the function returns without writing.
\<close>

definition compute_rollups ::
  "master_row list option \<Rightarrow> (string \<times> string option) list option \<Rightarrow> rollup_files option" where
  "compute_rollups master_file teams_file =
     (let master = safe_read_csv master_file;
          teams = safe_read_csv teams_file
      in if master = [] \<or> teams = [] then None
         else Some \<lparr>team_rollup_weekly = groupby_agg team_week_key master,
                    team_rollup_monthly = groupby_agg team_month_key master,
                    city_rollup_weekly = groupby_agg (city_week_key teams) master,
                    city_rollup_monthly = groupby_agg (city_month_key teams) master\<rparr>)"

text \<open>
  What the specification asks of a rollup \<open>out\<close> of the rows \<open>df\<close> under a grouping key:
  one row per key, each with the sums and the count of the rows of its key, and every row
  of \<open>df\<close> counted.
\<close>

definition sums_of_key :: "(master_row \<Rightarrow> 'k option) \<Rightarrow> master_row list \<Rightarrow> 'k rollup \<Rightarrow> bool" where
  "sums_of_key key df row =
     (index_score_sum row = sum_list (map m_index_score (filter (\<lambda>r. key r = Some (group_key row)) df)) \<and>
      weighted_score_sum row = sum_list (map m_weighted_score (filter (\<lambda>r. key r = Some (group_key row)) df)) \<and>
      games row = length (filter (\<lambda>r. key r = Some (group_key row)) df) \<and>
      games row > 0)"

definition rollup_of_keyed :: "(master_row \<Rightarrow> 'k option) \<Rightarrow> master_row list \<Rightarrow> 'k rollup list \<Rightarrow> bool" where
  "rollup_of_keyed key df out =
     (distinct (map group_key out) \<and>
      list_all (sums_of_key key df) out \<and>
      list_all (\<lambda>r. key r = None \<or> the (key r) \<in> set (map group_key out)) df \<and>
      sum_list (map games out) = length (filter (\<lambda>r. key r \<noteq> None) df))"

definition example_master_row :: master_row where
  "example_master_row =
     \<lparr>m_league = Some ''mlb'', m_team_id = Some ''mlb_XYZ'', m_week_start = Some ''2023-02-28'',
      m_month_start = Some ''2023-03-01'', m_index_score = 1, m_weighted_score = 1\<rparr>"

definition example_teams :: "(string \<times> string option) list" where
  "example_teams = [(''nhl_vegas-golden-knights'', Some ''vegas'')]"

text \<open>
  The grouping keys in the words of the specification. The city of a team is the city id in
  the last row that teams.csv holds for the team id, when there is such a row and its city
  id is present. A ledger row has a team key when its league, team id and period start are
  present, and a city key when its team id and period start are present and the team has a
  city.
\<close>

definition city_of_team :: "(string \<times> string option) list \<Rightarrow> string \<Rightarrow> string option" where
  "city_of_team teams t =
     (let rows = filter (\<lambda>row. fst row = t) teams
      in if rows = [] then None else snd (last rows))"

definition team_period_key ::
  "(master_row \<Rightarrow> string option) \<Rightarrow> master_row \<Rightarrow> (string \<times> string \<times> string) option" where
  "team_period_key period r =
     Option.bind (m_league r) (\<lambda>l.
       Option.bind (m_team_id r) (\<lambda>t.
         map_option (\<lambda>p. (l, t, p)) (period r)))"

definition city_period_key ::
  "(string \<times> string option) list \<Rightarrow> (master_row \<Rightarrow> string option) \<Rightarrow> master_row \<Rightarrow>
   (string \<times> string) option" where
  "city_period_key teams period r =
     Option.bind (m_team_id r) (\<lambda>t.
       Option.bind (city_of_team teams t) (\<lambda>c.
         map_option (\<lambda>p. (c, p)) (period r)))"

text \<open>
  A ledger of four rows in one week: two of a team that teams.csv lists twice, one of a team
  it lists once, one of a team it does not list.
\<close>

definition example_ledger :: "master_row list" where
  "example_ledger =
     [\<lparr>m_league = Some ''nhl'', m_team_id = Some ''nhl_vegas-golden-knights'',
       m_week_start = Some ''2023-02-28'', m_month_start = Some ''2023-03-01'',
       m_index_score = 1, m_weighted_score = 3\<rparr>,
      \<lparr>m_league = Some ''nhl'', m_team_id = Some ''nhl_toronto-maple-leafs'',
       m_week_start = Some ''2023-02-28'', m_month_start = Some ''2023-03-01'',
       m_index_score = - 1, m_weighted_score = - 3\<rparr>,
      \<lparr>m_league = Some ''nhl'', m_team_id = Some ''nhl_vegas-golden-knights'',
       m_week_start = Some ''2023-02-28'', m_month_start = Some ''2023-03-01'',
       m_index_score = 1, m_weighted_score = 1\<rparr>,
      example_master_row]"

definition example_team_table :: "(string \<times> string option) list" where
  "example_team_table =
     [(''nhl_vegas-golden-knights'', Some ''las-vegas''),
      (''nhl_toronto-maple-leafs'', Some ''toronto''),
      (''nhl_vegas-golden-knights'', Some ''vegas''),
      (''nhl_seattle-kraken'', None)]"

section \<open>Daily 7-day city aggregation (build\_city\_daily\_agg.py)\<close>

text \<open>The columns of all\_long.csv that the script reads; \<open>l_City\<close> is \<open>None\<close> for a missing value.\<close>

record long_row =
  l_date :: string
  l_City :: "string option"
  l_index_score :: int

text \<open>A row of the result; the date is a day number until \<^verbatim>\<open>strftime\<close> prints it.\<close>

record 'd daily_row =
  d_date :: 'd
  d_City :: string
  d_index_sum :: int
  d_games :: nat
  d_index_sum_7d :: int
  d_games_7d :: nat

definition cutoff :: int where
  "cutoff = days_from_civil 2022 1 1"

text \<open>
  The rows left after \<^verbatim>\<open>to_datetime\<close>, \<^verbatim>\<open>dropna(subset=["date", "City"])\<close> and the filter
  \<^verbatim>\<open>date >= cutoff\<close>, as (City, date, index\_score).
\<close>

definition kept_rows :: "long_row list \<Rightarrow> (string \<times> int \<times> int) list" where
  "kept_rows df =
     List.map_filter
       (\<lambda>r. case (l_City r, to_datetime (l_date r)) of
               (Some c, Some z) \<Rightarrow> if z \<ge> cutoff then Some (c, z, l_index_score r) else None
             | _ \<Rightarrow> None)
       df"

text \<open>\<^verbatim>\<open>groupby(["City", "date"]).agg(sum, count)\<close>: one row per (City, date), sorted.\<close>

definition day_sum :: "(string \<times> int \<times> int) list \<Rightarrow> string \<Rightarrow> int \<Rightarrow> int" where
  "day_sum kept c z = sum_list (map (\<lambda>r. snd (snd r)) (filter (\<lambda>r. fst r = c \<and> fst (snd r) = z) kept))"

definition day_count :: "(string \<times> int \<times> int) list \<Rightarrow> string \<Rightarrow> int \<Rightarrow> nat" where
  "day_count kept c z = length (filter (\<lambda>r. fst r = c \<and> fst (snd r) = z) kept)"

definition daily_agg :: "(string \<times> int \<times> int) list \<Rightarrow> ((string \<times> int) \<times> int \<times> nat) list" where
  "daily_agg kept =
     map (\<lambda>k. (k, day_sum kept (fst k) (snd k), day_count kept (fst k) (snd k)))
         (sort (remdups (map (\<lambda>r. (fst r, fst (snd r))) kept)))"

text \<open>The group of one city, with the date as index, sorted by it.\<close>

definition city_frame :: "((string \<times> int) \<times> int \<times> nat) list \<Rightarrow> string \<Rightarrow> (int \<times> int \<times> nat) list" where
  "city_frame daily c =
     sort_key fst (map (\<lambda>r. (snd (fst r), snd r)) (filter (\<lambda>r. fst (fst r) = c) daily))"

text \<open>\<^verbatim>\<open>pd.date_range(lo, hi, freq="D")\<close>: the days \<open>lo\<close>, \<open>lo + 1\<close>, ..., \<open>hi\<close>.\<close>

definition date_range :: "int \<Rightarrow> int \<Rightarrow> int list" where
  "date_range lo hi = map (\<lambda>k. lo + int k) [0..<nat (hi - lo + 1)]"

text \<open>\<^verbatim>\<open>g.reindex(full_range, fill_value=0)\<close>.\<close>

definition reindex :: "(int \<times> int \<times> nat) list \<Rightarrow> int list \<Rightarrow> (int \<times> int \<times> nat) list" where
  "reindex g full_range =
     map (\<lambda>z. case map_of g z of Some v \<Rightarrow> (z, v) | None \<Rightarrow> (z, 0, 0)) full_range"

text \<open>\<^verbatim>\<open>rolling(window=w, min_periods=1).sum()\<close>: at position \<open>i\<close>, the sum of the last \<open>w\<close> values up to \<open>i\<close>, of fewer at the start.\<close>

definition rolling_sum :: "nat \<Rightarrow> ('a::monoid_add) list \<Rightarrow> 'a list" where
  "rolling_sum w xs = map (\<lambda>i. sum_list (drop (Suc i - w) (take (Suc i) xs))) [0..<length xs]"

definition city_series :: "(string \<times> int \<times> int) list \<Rightarrow> string \<Rightarrow> int daily_row list" where
  "city_series kept c =
     (let g = city_frame (daily_agg kept) c;
          full_range = date_range (Min (set (map fst g))) (Max (set (map fst g)));
          g' = reindex g full_range;
          index_sum_7d = rolling_sum 7 (map (\<lambda>r. fst (snd r)) g');
          games_7d = rolling_sum 7 (map (\<lambda>r. snd (snd r)) g')
      in map (\<lambda>i. \<lparr>d_date = fst (g' ! i), d_City = c,
                    d_index_sum = fst (snd (g' ! i)), d_games = snd (snd (g' ! i)),
                    d_index_sum_7d = index_sum_7d ! i, d_games_7d = games_7d ! i\<rparr>)
             [0..<length g'])"

definition strftime_row :: "int daily_row \<Rightarrow> string daily_row" where
  "strftime_row r =
     \<lparr>d_date = format_date (civil_from_days (d_date r)), d_City = d_City r,
      d_index_sum = d_index_sum r, d_games = d_games r,
      d_index_sum_7d = d_index_sum_7d r, d_games_7d = d_games_7d r\<rparr>"

text \<open>The frame the script writes, for the frame it read from all\_long.csv.\<close>

definition city_daily_7d :: "long_row list \<Rightarrow> string daily_row list" where
  "city_daily_7d df =
     (let kept = kept_rows df;
          cities = sort (remdups (map fst kept))
      in sort_key (\<lambda>r. (d_City r, d_date r))
           (map strftime_row (concat (map (city_series kept) cities))))"

text \<open>The dates of a city among the kept rows.\<close>

definition city_days :: "(string \<times> int \<times> int) list \<Rightarrow> string \<Rightarrow> int set" where
  "city_days kept c = {z. \<exists>s. (c, z, s) \<in> set kept}"

definition gap_example :: "long_row list" where
  "gap_example =
     [\<lparr>l_date = ''2023-03-01'', l_City = Some ''Toronto'', l_index_score = 1\<rparr>,
      \<lparr>l_date = ''2023-03-10'', l_City = Some ''Toronto'', l_index_score = - 1\<rparr>,
      \<lparr>l_date = ''2023-03-01'', l_City = Some ''Toronto'', l_index_score = 1\<rparr>]"

definition cutoff_example :: "long_row list" where
  "cutoff_example =
     [\<lparr>l_date = ''2021-12-30'', l_City = Some ''Toronto'', l_index_score = 1\<rparr>,
      \<lparr>l_date = ''2022-01-02'', l_City = Some ''Toronto'', l_index_score = 1\<rparr>]"

section \<open>The stages and their input files\<close>

text \<open>
  Each stage as its \<^verbatim>\<open>main\<close> runs it, on the files it reads (\<open>None\<close>: the file does not
  exist). \<open>Inl\<close> is an exception that ends the stage; \<open>Inr\<close> holds what the stage writes.
  The frames are typed by their columns, so the checks for missing columns have no
  counterpart here.
\<close>

datatype py_error = FileNotFoundError | KeyError | ValueError | AttributeError

text \<open>compute\_team\_game\_results.py: \<^verbatim>\<open>main\<close> writes what \<^verbatim>\<open>compute_master\<close> returns.\<close>

definition ledger_main :: "game list option \<Rightarrow> weights option \<Rightarrow> py_error + team_game_result list" where
  "ledger_main games_file scoring_json =
     Inr (compute_master (load_scoring_weights scoring_json) (safe_read_csv games_file))"

text \<open>rollups.py: \<open>Inr None\<close> is the return without output.\<close>

definition rollups_main ::
  "master_row list option \<Rightarrow> (string \<times> string option) list option \<Rightarrow> py_error + rollup_files option" where
  "rollups_main master_file teams_file = Inr (compute_rollups master_file teams_file)"

text \<open>
  build\_city\_daily\_agg.py. When no row is left after the filters there is no city group,
  the result is the frame built from the column names alone, whose date column is not
  datetime-like, and \<^verbatim>\<open>result["date"].dt.strftime\<close> raises AttributeError before the
  output is written.
\<close>

definition city_daily_main :: "long_row list option \<Rightarrow> py_error + string daily_row list" where
  "city_daily_main all_long =
     (case all_long of
        None \<Rightarrow> Inl FileNotFoundError
      | Some df \<Rightarrow>
          if kept_rows df = [] then Inl AttributeError else Inr (city_daily_7d df))"

section \<open>Properties of the scorer and the ledger builder\<close>

lemma game_rows_length: "length (game_rows w g) = 2"
  by (simp add: game_rows_def Let_def)

lemma add_periods_fields:
  "r_game_id (add_periods e) = r_game_id e" "r_date (add_periods e) = r_date e"
  "r_league (add_periods e) = r_league e" "r_season_type (add_periods e) = r_season_type e"
  "team_id (add_periods e) = team_id e" "result (add_periods e) = result e"
  "index_score (add_periods e) = index_score e" "weighted_score (add_periods e) = weighted_score e"
  by (simp_all add: add_periods_def Let_def ledger_entry.extend_def)

lemma compute_master_set:
  "set (compute_master w gs) = add_periods ` (\<Union>g \<in> set gs. set (game_rows w g))"
  by (auto simp add: compute_master_def)

lemma concat_game_rows_length: "length (concat (map (game_rows w) gs)) = 2 * length gs"
  by (induction gs) (simp_all add: game_rows_length)

lemma compute_master_length: "length (compute_master w gs) = 2 * length gs"
  by (simp add: compute_master_def concat_game_rows_length)

lemma game_rows_weighted:
  "e \<in> set (game_rows w g) \<Longrightarrow>
     weighted_score e = index_score e * \<bar>configured_weight w (r_season_type e) (result e)\<bar>"
  unfolding game_rows_def Let_def
  by (cases "fst (parse_scores (home_score g) (away_score g)) \<noteq> None \<and>
      snd (parse_scores (home_score g) (away_score g)) \<noteq> None \<and>
      parse_winner (winning_team_id g) \<noteq> None")
    (auto simp add: configured_weight_def weight_for_def)

lemma game_rows_incomplete:
  assumes "\<not> decisive g" and "e \<in> set (game_rows w g)"
  shows "result e = [] \<and> index_score e = 0 \<and> weighted_score e = 0"
proof -
  have c: "\<not> (fst (parse_scores (home_score g) (away_score g)) \<noteq> None \<and>
      snd (parse_scores (home_score g) (away_score g)) \<noteq> None \<and>
      parse_winner (winning_team_id g) \<noteq> None)"
    using assms(1) by (simp add: decisive_def)
  from assms(2) show ?thesis
    unfolding game_rows_def Let_def if_not_P [OF c] by auto
qed

lemma game_rows_decisive:
  assumes "decisive g"
  shows "\<exists>h a. game_rows w g = [h, a] \<and>
     result h = (if parse_winner (winning_team_id g) = Some (home_team_id g) then ''W'' else ''L'') \<and>
     result a = (if parse_winner (winning_team_id g) = Some (away_team_id g) then ''W'' else ''L'') \<and>
     index_score h = (if result h = ''W'' then 1 else - 1) \<and>
     index_score a = (if result a = ''W'' then 1 else - 1) \<and>
     r_season_type h = lower (season_type g) \<and> r_season_type a = lower (season_type g) \<and>
     weighted_score h = index_score h * \<bar>configured_weight w (r_season_type h) (result h)\<bar> \<and>
     weighted_score a = index_score a * \<bar>configured_weight w (r_season_type a) (result a)\<bar>"
proof -
  have c: "fst (parse_scores (home_score g) (away_score g)) \<noteq> None \<and>
      snd (parse_scores (home_score g) (away_score g)) \<noteq> None \<and>
      parse_winner (winning_team_id g) \<noteq> None"
    using assms by (simp add: decisive_def)
  show ?thesis
    unfolding game_rows_def Let_def if_P [OF c]
    by (simp add: configured_weight_def weight_for_def)
qed

lemma game_rows_outcome:
  assumes "e \<in> set (game_rows w g)"
  shows "result e = ''W'' \<and> index_score e = 1 \<or>
     result e = ''L'' \<and> index_score e = - 1 \<or>
     result e = [] \<and> index_score e = 0 \<and> weighted_score e = 0"
proof (cases "decisive g")
  case True
  from game_rows_decisive [OF True, of w] obtain h a where rows: "game_rows w g = [h, a]"
    and rh: "result h = (if parse_winner (winning_team_id g) = Some (home_team_id g) then ''W'' else ''L'')"
    and ra: "result a = (if parse_winner (winning_team_id g) = Some (away_team_id g) then ''W'' else ''L'')"
    and ih: "index_score h = (if result h = ''W'' then 1 else - 1)"
    and ia: "index_score a = (if result a = ''W'' then 1 else - 1)"
    by (elim exE conjE)
  from rh ih have h: "result h = ''W'' \<and> index_score h = 1 \<or> result h = ''L'' \<and> index_score h = - 1"
    by (cases "parse_winner (winning_team_id g) = Some (home_team_id g)") simp_all
  from ra ia have a: "result a = ''W'' \<and> index_score a = 1 \<or> result a = ''L'' \<and> index_score a = - 1"
    by (cases "parse_winner (winning_team_id g) = Some (away_team_id g)") simp_all
  from assms rows have "e = h \<or> e = a" by simp
  with h a show ?thesis by blast
next
  case False
  from game_rows_incomplete [OF False assms] show ?thesis by simp
qed

lemma configured_weight_key:
  "configured_weight w st res = dict_get w (weight_key st res) (if res = ''W'' then 1 else - 1)"
  by (simp add: configured_weight_def weight_key_def)

text \<open>
  Claim C2. The scorer reads its weights from the scoring configuration, and the defaults
  +1, -1, +3, -3 when there is no configuration file. A ledger row with a result (\<open>W\<close> with
  \<open>index_score\<close> 1, or \<open>L\<close> with \<open>index_score\<close> -1) has
  \<open>weighted_score = index_score * |k|\<close>, where \<open>k\<close> is the value the supplied configuration
  holds under the key of the row's season type and result (\<^verbatim>\<open>playoff_win\<close>,
  \<^verbatim>\<open>playoff_loss\<close>, \<^verbatim>\<open>regular_season_win\<close>, \<^verbatim>\<open>regular_season_loss\<close>); a key the
  configuration does not hold counts with magnitude 1, and without a configuration the
  magnitude is 3 for a playoff row and 1 otherwise. A row without a result has
  \<open>index_score\<close> 0 and \<open>weighted_score\<close> 0.
\<close>

theorem weighted_score_is_scaled_index_score:
  assumes "r \<in> set (compute_master (load_scoring_weights scoring_json) gs)"
  shows "(result r = ''W'' \<and> index_score r = 1 \<or>
          result r = ''L'' \<and> index_score r = - 1 \<or>
          result r = [] \<and> index_score r = 0 \<and> weighted_score r = 0) \<and>
         (\<forall>w k. scoring_json = Some w \<and> result r \<noteq> [] \<and>
                 w (weight_key (r_season_type r) (result r)) = Some k \<longrightarrow>
                 weighted_score r = index_score r * \<bar>k\<bar>) \<and>
         (\<forall>w. scoring_json = Some w \<and> result r \<noteq> [] \<and>
               w (weight_key (r_season_type r) (result r)) = None \<longrightarrow>
               weighted_score r = index_score r) \<and>
         (scoring_json = None \<and> result r \<noteq> [] \<longrightarrow>
            weighted_score r = index_score r * (if r_season_type r = ''playoff'' then 3 else 1)) \<and>
         load_scoring_weights None ''regular_season_win'' = Some 1 \<and>
         load_scoring_weights None ''regular_season_loss'' = Some (- 1) \<and>
         load_scoring_weights None ''playoff_win'' = Some 3 \<and>
         load_scoring_weights None ''playoff_loss'' = Some (- 3)"
proof -
  from assms obtain g e where e: "e \<in> set (game_rows (load_scoring_weights scoring_json) g)"
    and r: "r = add_periods e"
    by (auto simp add: compute_master_set)
  have outcome: "result e = ''W'' \<and> index_score e = 1 \<or>
     result e = ''L'' \<and> index_score e = - 1 \<or>
     result e = [] \<and> index_score e = 0 \<and> weighted_score e = 0"
    using e by (rule game_rows_outcome)
  have scaled: "weighted_score e =
      index_score e *
      \<bar>dict_get (load_scoring_weights scoring_json) (weight_key (r_season_type e) (result e))
         (if result e = ''W'' then 1 else - 1)\<bar>"
    using game_rows_weighted [OF e] by (simp add: configured_weight_key)
  have configured: "weighted_score e = index_score e * \<bar>k\<bar>"
    if "scoring_json = Some w" "w (weight_key (r_season_type e) (result e)) = Some k" for w k
    using scaled that by (simp add: load_scoring_weights_def dict_get_def)
  have fallback: "weighted_score e = index_score e"
    if "scoring_json = Some w" "w (weight_key (r_season_type e) (result e)) = None" for w
    using scaled that by (simp add: load_scoring_weights_def dict_get_def)
  have defaults: "weighted_score e = index_score e * (if r_season_type e = ''playoff'' then 3 else 1)"
    if "scoring_json = None" "result e \<noteq> []"
    using scaled that outcome
    by (auto simp add: load_scoring_weights_def default_weights_def dict_get_def weight_key_def)
  show ?thesis
    using outcome configured fallback defaults
    by (simp add: r add_periods_fields load_scoring_weights_def default_weights_def)
qed

theorem weighted_score_is_scaled_index_score_witness:
  "hd (compute_master (load_scoring_weights (Some example_scoring)) [playoff_game])
     \<in> set (compute_master (load_scoring_weights (Some example_scoring)) [playoff_game]) \<and>
   team_id (hd (compute_master (load_scoring_weights (Some example_scoring)) [playoff_game]))
     = ''nhl_toronto-maple-leafs'' \<and>
   r_season_type (hd (compute_master (load_scoring_weights (Some example_scoring)) [playoff_game]))
     = ''playoff'' \<and>
   result (hd (compute_master (load_scoring_weights (Some example_scoring)) [playoff_game])) = ''L'' \<and>
   example_scoring ''playoff_loss'' = Some (- 4) \<and>
   index_score (hd (compute_master (load_scoring_weights (Some example_scoring)) [playoff_game])) = - 1 \<and>
   weighted_score (hd (compute_master (load_scoring_weights (Some example_scoring)) [playoff_game])) = - 4"
proof -
  define r where "r = hd (compute_master (load_scoring_weights (Some example_scoring)) [playoff_game])"
  have h: "r \<in> set (compute_master (load_scoring_weights (Some example_scoring)) [playoff_game])"
    unfolding r_def by code_simp
  have v: "team_id r = ''nhl_toronto-maple-leafs''" "r_season_type r = ''playoff''"
    "result r = ''L''"
    unfolding r_def by code_simp+
  have k: "example_scoring ''playoff_loss'' = Some (- 4)"
    "weight_key ''playoff'' ''L'' = ''playoff_loss''"
    by code_simp+
  from weighted_score_is_scaled_index_score [OF h]
  have outcome: "result r = ''W'' \<and> index_score r = 1 \<or>
          result r = ''L'' \<and> index_score r = - 1 \<or>
          result r = [] \<and> index_score r = 0 \<and> weighted_score r = 0"
    and configured: "\<forall>w k. Some example_scoring = Some w \<and> result r \<noteq> [] \<and>
                 w (weight_key (r_season_type r) (result r)) = Some k \<longrightarrow>
                 weighted_score r = index_score r * \<bar>k\<bar>"
    by blast+
  from outcome v have i: "index_score r = - 1" by simp
  from configured v k have "weighted_score r = index_score r * \<bar>- 4\<bar>"
    by simp
  with i have "weighted_score r = - 4" by simp
  with h v k i show ?thesis
    unfolding r_def by simp
qed

lemma add_periods_sides:
  "opponent_team_id (add_periods e) = opponent_team_id e" "is_home (add_periods e) = is_home e"
  by (simp_all add: add_periods_def Let_def ledger_entry.extend_def)

lemma decisive_cells:
  "decisive g \<longleftrightarrow>
     (\<exists>h a s. home_score g = Num h \<and> away_score g = Num a \<and>
              winning_team_id g = Some s \<and> strip s \<noteq> [])"
  by (cases "home_score g"; cases "away_score g"; cases "winning_team_id g")
    (simp_all add: decisive_def parse_scores_def parse_score_def parse_winner_def)

lemma game_rows_sides:
  "map (\<lambda>e. (r_game_id e, team_id e, opponent_team_id e, is_home e)) (game_rows w g) =
     [(game_id g, home_team_id g, away_team_id g, True),
      (game_id g, away_team_id g, home_team_id g, False)]"
  by (simp add: game_rows_def Let_def)

lemma game_rows_count:
  "length (filter (\<lambda>e. r_game_id e = i) (game_rows w x)) = (if game_id x = i then 2 else 0)"
  by (simp add: game_rows_def Let_def)

lemma concat_game_rows_count:
  "length (filter (\<lambda>e. r_game_id e = i) (concat (map (game_rows w) gs))) =
     2 * length (filter (\<lambda>x. game_id x = i) gs)"
  by (induction gs) (simp_all add: game_rows_count)

lemma compute_master_count:
  "length (filter (\<lambda>r. r_game_id r = i) (compute_master w gs)) =
     2 * length (filter (\<lambda>x. game_id x = i) gs)"
proof -
  have "filter (\<lambda>r. r_game_id r = i) (map add_periods xs) =
      map add_periods (filter (\<lambda>e. r_game_id e = i) xs)" for xs
    by (induction xs) (simp_all add: add_periods_fields)
  then show ?thesis
    by (simp add: compute_master_def filter_sort concat_game_rows_count)
qed

text \<open>
  Claim C7. A game in which a score is missing (empty, blank or not a number) or the
  winner is missing (empty or blank) still gives its two ledger rows: the row of the home
  team against the away team and the row of the away team against the home team, both
  under the game's id, both with the empty result, \<open>index_score\<close> 0 and \<open>weighted_score\<close> 0.
  Both are rows of the ledger table, which holds two rows for each game of its id and two
  rows per game in all.
\<close>

theorem incomplete_game_is_neutral:
  assumes "home_score g \<in> {NaN, Blank, Bad} \<or> away_score g \<in> {NaN, Blank, Bad} \<or>
           winning_team_id g = None \<or> (\<exists>s. winning_team_id g = Some s \<and> strip s = [])"
    and "g \<in> set gs"
  shows "map (\<lambda>e. (r_game_id e, team_id e, opponent_team_id e, is_home e,
                    result e, index_score e, weighted_score e)) (game_rows w g) =
           [(game_id g, home_team_id g, away_team_id g, True, [], 0, 0),
            (game_id g, away_team_id g, home_team_id g, False, [], 0, 0)] \<and>
         (\<exists>h a. h \<in> set (compute_master w gs) \<and> a \<in> set (compute_master w gs) \<and>
            r_game_id h = game_id g \<and> team_id h = home_team_id g \<and>
            opponent_team_id h = away_team_id g \<and> is_home h \<and>
            result h = [] \<and> index_score h = 0 \<and> weighted_score h = 0 \<and>
            r_game_id a = game_id g \<and> team_id a = away_team_id g \<and>
            opponent_team_id a = home_team_id g \<and> \<not> is_home a \<and>
            result a = [] \<and> index_score a = 0 \<and> weighted_score a = 0) \<and>
         length (filter (\<lambda>r. r_game_id r = game_id g) (compute_master w gs)) =
           2 * length (filter (\<lambda>x. game_id x = game_id g) gs) \<and>
         length (compute_master w gs) = 2 * length gs"
proof -
  from assms(1) have nd: "\<not> decisive g"
    by (auto simp add: decisive_cells)
  from game_rows_sides [of w g] obtain h a where rows: "game_rows w g = [h, a]"
    and h: "r_game_id h = game_id g" "team_id h = home_team_id g"
      "opponent_team_id h = away_team_id g" "is_home h"
    and a: "r_game_id a = game_id g" "team_id a = away_team_id g"
      "opponent_team_id a = home_team_id g" "\<not> is_home a"
    by auto
  from game_rows_incomplete [OF nd, of h w] game_rows_incomplete [OF nd, of a w] rows
  have z: "result h = []" "index_score h = 0" "weighted_score h = 0"
    "result a = []" "index_score a = 0" "weighted_score a = 0"
    by simp_all
  from rows have "h \<in> set (game_rows w g)" "a \<in> set (game_rows w g)"
    by simp_all
  with assms(2) have m: "add_periods h \<in> set (compute_master w gs)"
    "add_periods a \<in> set (compute_master w gs)"
    unfolding compute_master_set by blast+
  have first: "map (\<lambda>e. (r_game_id e, team_id e, opponent_team_id e, is_home e,
                    result e, index_score e, weighted_score e)) (game_rows w g) =
           [(game_id g, home_team_id g, away_team_id g, True, [], 0, 0),
            (game_id g, away_team_id g, home_team_id g, False, [], 0, 0)]"
    using rows h a z by simp
  have second: "\<exists>h a. h \<in> set (compute_master w gs) \<and> a \<in> set (compute_master w gs) \<and>
            r_game_id h = game_id g \<and> team_id h = home_team_id g \<and>
            opponent_team_id h = away_team_id g \<and> is_home h \<and>
            result h = [] \<and> index_score h = 0 \<and> weighted_score h = 0 \<and>
            r_game_id a = game_id g \<and> team_id a = away_team_id g \<and>
            opponent_team_id a = home_team_id g \<and> \<not> is_home a \<and>
            result a = [] \<and> index_score a = 0 \<and> weighted_score a = 0"
    apply (rule exI [of _ "add_periods h"])
    apply (rule exI [of _ "add_periods a"])
    using m h a z by (simp add: add_periods_fields add_periods_sides)
  from first second show ?thesis
    by (simp add: compute_master_count compute_master_length)
qed

theorem incomplete_game_is_neutral_witness:
  "home_score blank_winner_game = Num 2 \<and> away_score blank_winner_game = Num 4 \<and>
   winning_team_id blank_winner_game = Some ''  '' \<and> strip ''  '' = [] \<and>
   blank_winner_game \<in> set [blank_winner_game] \<and>
   map (\<lambda>e. (r_game_id e, team_id e, opponent_team_id e, is_home e,
              result e, index_score e, weighted_score e))
     (game_rows example_scoring blank_winner_game) =
     [(''nhl_2023-03-01_vegas-golden-knights_toronto-maple-leafs'',
       ''nhl_toronto-maple-leafs'', ''nhl_vegas-golden-knights'', True, [], 0, 0),
      (''nhl_2023-03-01_vegas-golden-knights_toronto-maple-leafs'',
       ''nhl_vegas-golden-knights'', ''nhl_toronto-maple-leafs'', False, [], 0, 0)] \<and>
   length (compute_master example_scoring [blank_winner_game]) = 2 \<and>
   home_score unscored_game = NaN \<and> unscored_game \<in> set [unscored_game] \<and>
   map (\<lambda>e. (r_game_id e, team_id e, opponent_team_id e, is_home e,
              result e, index_score e, weighted_score e))
     (game_rows default_weights unscored_game) =
     [(''nhl_2023-03-01_vegas-golden-knights_toronto-maple-leafs'',
       ''nhl_toronto-maple-leafs'', ''nhl_vegas-golden-knights'', True, [], 0, 0),
      (''nhl_2023-03-01_vegas-golden-knights_toronto-maple-leafs'',
       ''nhl_vegas-golden-knights'', ''nhl_toronto-maple-leafs'', False, [], 0, 0)] \<and>
   length (compute_master default_weights [unscored_game]) = 2"
proof -
  have b: "home_score blank_winner_game = Num 2" "away_score blank_winner_game = Num 4"
    "winning_team_id blank_winner_game = Some ''  ''" "strip ''  '' = []"
    by code_simp+
  have u: "home_score unscored_game = NaN"
    by code_simp
  have ids: "game_id blank_winner_game = ''nhl_2023-03-01_vegas-golden-knights_toronto-maple-leafs''"
    "home_team_id blank_winner_game = ''nhl_toronto-maple-leafs''"
    "away_team_id blank_winner_game = ''nhl_vegas-golden-knights''"
    "game_id unscored_game = ''nhl_2023-03-01_vegas-golden-knights_toronto-maple-leafs''"
    "home_team_id unscored_game = ''nhl_toronto-maple-leafs''"
    "away_team_id unscored_game = ''nhl_vegas-golden-knights''"
    by code_simp+
  have h1: "home_score blank_winner_game \<in> {NaN, Blank, Bad} \<or>
      away_score blank_winner_game \<in> {NaN, Blank, Bad} \<or>
      winning_team_id blank_winner_game = None \<or>
      (\<exists>s. winning_team_id blank_winner_game = Some s \<and> strip s = [])"
    using b by blast
  have h2: "home_score unscored_game \<in> {NaN, Blank, Bad} \<or>
      away_score unscored_game \<in> {NaN, Blank, Bad} \<or>
      winning_team_id unscored_game = None \<or>
      (\<exists>s. winning_team_id unscored_game = Some s \<and> strip s = [])"
    using u by simp
  have m1: "blank_winner_game \<in> set [blank_winner_game]"
    and m2: "unscored_game \<in> set [unscored_game]"
    by simp_all
  note r1 = incomplete_game_is_neutral [OF h1 m1, of example_scoring]
  note r2 = incomplete_game_is_neutral [OF h2 m2, of default_weights]
  from r1 have p1: "map (\<lambda>e. (r_game_id e, team_id e, opponent_team_id e, is_home e,
              result e, index_score e, weighted_score e))
     (game_rows example_scoring blank_winner_game) =
     [(''nhl_2023-03-01_vegas-golden-knights_toronto-maple-leafs'',
       ''nhl_toronto-maple-leafs'', ''nhl_vegas-golden-knights'', True, [], 0, 0),
      (''nhl_2023-03-01_vegas-golden-knights_toronto-maple-leafs'',
       ''nhl_vegas-golden-knights'', ''nhl_toronto-maple-leafs'', False, [], 0, 0)]"
    and l1: "length (compute_master example_scoring [blank_winner_game]) = 2"
    unfolding ids by simp_all
  from r2 have p2: "map (\<lambda>e. (r_game_id e, team_id e, opponent_team_id e, is_home e,
              result e, index_score e, weighted_score e))
     (game_rows default_weights unscored_game) =
     [(''nhl_2023-03-01_vegas-golden-knights_toronto-maple-leafs'',
       ''nhl_toronto-maple-leafs'', ''nhl_vegas-golden-knights'', True, [], 0, 0),
      (''nhl_2023-03-01_vegas-golden-knights_toronto-maple-leafs'',
       ''nhl_vegas-golden-knights'', ''nhl_toronto-maple-leafs'', False, [], 0, 0)]"
    and l2: "length (compute_master default_weights [unscored_game]) = 2"
    unfolding ids by simp_all
  from b u m1 m2 p1 l1 p2 l2 show ?thesis
    by (simp only: simp_thms)
qed

text \<open>
  Claim C3, as the code has it. A decisive game whose \<open>winning_team_id\<close> is the id of
  exactly one of its two teams gives exactly two ledger rows, one \<open>W\<close> and one \<open>L\<close>, with
  \<open>index_score\<close> +1 and -1; when the win and loss weights of its season type have the same
  magnitude, the two \<open>weighted_score\<close> values are negations of each other, of that magnitude.
\<close>

theorem decisive_game_rows_opposite:
  assumes "decisive g"
    and "(parse_winner (winning_team_id g) = Some (home_team_id g))
         \<noteq> (parse_winner (winning_team_id g) = Some (away_team_id g))"
  shows "case game_rows w g of
           [h, a] \<Rightarrow>
             (result h = ''W'' \<and> result a = ''L'' \<or> result h = ''L'' \<and> result a = ''W'') \<and>
             index_score h = - index_score a \<and> \<bar>index_score h\<bar> = 1 \<and>
             (symmetric_weights w (r_season_type h) \<longrightarrow>
                weighted_score h = - weighted_score a \<and>
                \<bar>weighted_score h\<bar> = \<bar>configured_weight w (r_season_type h) ''W''\<bar>)
         | _ \<Rightarrow> False"
proof -
  from game_rows_decisive [OF assms(1), of w] obtain h a where
    rows: "game_rows w g = [h, a]"
    and rh: "result h = (if parse_winner (winning_team_id g) = Some (home_team_id g) then ''W'' else ''L'')"
    and ra: "result a = (if parse_winner (winning_team_id g) = Some (away_team_id g) then ''W'' else ''L'')"
    and ih: "index_score h = (if result h = ''W'' then 1 else - 1)"
    and ia: "index_score a = (if result a = ''W'' then 1 else - 1)"
    and st: "r_season_type h = lower (season_type g)" "r_season_type a = lower (season_type g)"
    and wh: "weighted_score h = index_score h * \<bar>configured_weight w (r_season_type h) (result h)\<bar>"
    and wa: "weighted_score a = index_score a * \<bar>configured_weight w (r_season_type a) (result a)\<bar>"
    by blast
  show ?thesis
  proof (cases "parse_winner (winning_team_id g) = Some (home_team_id g)")
    case True
    with assms(2) have na: "parse_winner (winning_team_id g) \<noteq> Some (away_team_id g)" by simp
    from True na rh ra have r: "result h = ''W''" "result a = ''L''" by simp_all
    with ih ia wh wa st show ?thesis
      by (simp add: rows symmetric_weights_def)
  next
    case False
    with assms(2) have a: "parse_winner (winning_team_id g) = Some (away_team_id g)" by simp
    from False a rh ra have r: "result h = ''L''" "result a = ''W''" by simp_all
    with ih ia wh wa st show ?thesis
      by (simp add: rows symmetric_weights_def)
  qed
qed

theorem decisive_game_rows_opposite_witness:
  "decisive example_game \<and>
   (parse_winner (winning_team_id example_game) = Some (home_team_id example_game))
     \<noteq> (parse_winner (winning_team_id example_game) = Some (away_team_id example_game)) \<and>
   (case game_rows default_weights example_game of
      [h, a] \<Rightarrow>
        (result h = ''W'' \<and> result a = ''L'' \<or> result h = ''L'' \<and> result a = ''W'') \<and>
        index_score h = - index_score a \<and> \<bar>index_score h\<bar> = 1 \<and>
        (symmetric_weights default_weights (r_season_type h) \<longrightarrow>
           weighted_score h = - weighted_score a \<and>
           \<bar>weighted_score h\<bar> = \<bar>configured_weight default_weights (r_season_type h) ''W''\<bar>)
    | _ \<Rightarrow> False) \<and>
   symmetric_weights default_weights ''regular'' \<and>
   map weighted_score (game_rows default_weights example_game) = [- 1, 1]"
proof -
  have h1: "decisive example_game"
    by code_simp
  have h2: "(parse_winner (winning_team_id example_game) = Some (home_team_id example_game))
     \<noteq> (parse_winner (winning_team_id example_game) = Some (away_team_id example_game))"
    by code_simp
  have h3: "symmetric_weights default_weights ''regular''"
    by code_simp
  have h4: "map weighted_score (game_rows default_weights example_game) = [- 1, 1]"
    by code_simp
  from decisive_game_rows_opposite [OF h1 h2, of default_weights] h1 h2 h3 h4 show ?thesis
    by blast
qed

text \<open>
  The claim as the specification states it takes every game with both scores and a
  non-empty \<open>winning_team_id\<close>. When that id is the id of neither team, both rows are
  losses with \<open>index_score\<close> -1.
\<close>

theorem decisive_game_counterexample:
  "decisive winner_unknown_game \<and>
   map result (game_rows default_weights winner_unknown_game) = [''L'', ''L''] \<and>
   map index_score (game_rows default_weights winner_unknown_game) = [- 1, - 1]"
  by code_simp

section \<open>Week and month buckets\<close>

text \<open>
  Claim C5. The ledger documents \<open>week_start\<close> as the Monday of the ISO week. For the game
  of Wednesday 2023-03-01 the code writes 2023-02-28, a Tuesday; the Monday of that ISO
  week is 2023-02-27. \<open>month_start\<close> is the first of the month, 2023-03-01.
\<close>

theorem week_start_example:
  "map week_start (compute_master default_weights [example_game]) = [''2023-02-28'', ''2023-02-28''] \<and>
   map month_start (compute_master default_weights [example_game]) = [''2023-03-01'', ''2023-03-01''] \<and>
   weekday (week_period_start (days_from_civil 2023 3 1)) = 1 \<and>
   date_str_of (map_option iso_week_monday (to_datetime ''2023-03-01'')) = ''2023-02-27''"
  by code_simp

text \<open>The start of a \<^verbatim>\<open>W-MON\<close> period is a Tuesday for every date, never a Monday.\<close>

lemma week_period_start_tuesday: "weekday (week_period_start z) = 1"
  unfolding weekday_def week_period_start_def by presburger

lemma week_period_start_not_iso_monday: "week_period_start z \<noteq> iso_week_monday z"
  unfolding weekday_def week_period_start_def iso_week_monday_def by presburger

text \<open>Both buckets of a ledger row are functions of its date alone.\<close>

lemma periods_depend_on_date_only:
  assumes "r_date e = r_date e'"
  shows "week_start (add_periods e) = week_start (add_periods e') \<and>
         month_start (add_periods e) = month_start (add_periods e')"
  using assms by (simp add: add_periods_def Let_def ledger_entry.extend_def)

section \<open>Properties of the name split\<close>

lemma endswith_iff: "endswith s a \<longleftrightarrow> (\<exists>p. s = p @ a)"
proof
  assume "endswith s a"
  then have "s = take (length s - length a) s @ a"
    by (metis append_take_drop_id endswith_def)
  then show "\<exists>p. s = p @ a" ..
next
  assume "\<exists>p. s = p @ a"
  then show "endswith s a" by (auto simp add: endswith_def)
qed

lemma endswith_both:
  assumes "endswith s a" and "endswith s b" and "length a \<le> length b"
  shows "endswith b a"
proof -
  from assms(1) obtain p where p: "s = p @ a"
    by (auto simp add: endswith_iff)
  from assms(2) obtain q where q: "s = q @ b"
    by (auto simp add: endswith_iff)
  from p q have "p @ a = q @ b" by simp
  with assms(3) obtain r where "b = r @ a"
    by (auto simp add: append_eq_append_conv2)
  then show ?thesis by (auto simp add: endswith_iff)
qed

text \<open>In each curated set no nickname is empty and none is a suffix of another.\<close>

lemma curated_nicknames:
  assumes "set ns = set MULTIWORD_NICKNAMES \<or> set ns = set MULTIWORD_NICKNAMES_NHL \<or>
           set ns = set MULTIWORD_NICKNAMES_NFL"
  shows "[] \<notin> set ns" and "\<forall>x \<in> set ns. \<forall>y \<in> set ns. endswith y x \<longrightarrow> x = y"
proof -
  have e: "[] \<notin> set MULTIWORD_NICKNAMES" "[] \<notin> set MULTIWORD_NICKNAMES_NHL"
    "[] \<notin> set MULTIWORD_NICKNAMES_NFL"
    by code_simp+
  have s: "\<forall>x \<in> set MULTIWORD_NICKNAMES. \<forall>y \<in> set MULTIWORD_NICKNAMES. endswith y x \<longrightarrow> x = y"
    "\<forall>x \<in> set MULTIWORD_NICKNAMES_NHL. \<forall>y \<in> set MULTIWORD_NICKNAMES_NHL. endswith y x \<longrightarrow> x = y"
    "\<forall>x \<in> set MULTIWORD_NICKNAMES_NFL. \<forall>y \<in> set MULTIWORD_NICKNAMES_NFL. endswith y x \<longrightarrow> x = y"
    by code_simp+
  from assms e show "[] \<notin> set ns" by auto
  from assms s show "\<forall>x \<in> set ns. \<forall>y \<in> set ns. endswith y x \<longrightarrow> x = y" by auto
qed

lemma nickname_unique:
  assumes "\<forall>x \<in> set ns. \<forall>y \<in> set ns. endswith y x \<longrightarrow> x = y"
    and "a \<in> set ns" and "b \<in> set ns" and "endswith s a" and "endswith s b"
  shows "a = b"
proof (cases "length a \<le> length b")
  case True
  from endswith_both [OF assms(4,5) True] assms(1,2,3) show ?thesis by blast
next
  case False
  then have "length b \<le> length a" by simp
  from endswith_both [OF assms(5,4) this] assms(1,2,3) show ?thesis by blast
qed

lemma find_nickname:
  assumes "\<forall>x \<in> set ns. \<forall>y \<in> set ns. endswith y x \<longrightarrow> x = y"
    and "nick \<in> set ns" and "endswith s nick"
  shows "find (endswith s) ns = Some nick"
proof -
  from assms(2,3) obtain x where x: "find (endswith s) ns = Some x"
    by (cases "find (endswith s) ns") (auto simp add: find_None_iff)
  then have "x \<in> set ns" "endswith s x"
    by (auto simp add: find_Some_iff)
  with assms nickname_unique [of ns x nick s] have "x = nick" by blast
  with x show ?thesis by simp
qed

lemma strip_no_trailing_space: "\<not> endswith (strip s) '' ''"
proof
  assume "endswith (strip s) '' ''"
  then obtain p where p: "strip s = p @ '' ''" by (auto simp add: endswith_iff)
  then have "dropWhile is_space (rev (dropWhile is_space s)) = CHR '' '' # rev p"
    by (metis strip_def rev.simps(2) rev_append rev_rev_ident rev_singleton_conv append_Cons append_Nil)
  then have "\<not> is_space (CHR '' '')"
    by (metis hd_dropWhile list.sel(1) list.distinct(1))
  then show False by (simp add: is_space_def)
qed

lemma rsplit_space_split:
  assumes "CHR '' '' \<in> set s"
  shows "\<exists>c n. s = c @ '' '' @ n \<and> CHR '' '' \<notin> set n \<and> rsplit_space s = (c, n)"
proof -
  define t where "t = takeWhile (\<lambda>c. c \<noteq> CHR '' '') (rev s)"
  define d where "d = dropWhile (\<lambda>c. c \<noteq> CHR '' '') (rev s)"
  have rs: "rev s = t @ d" by (simp add: t_def d_def)
  have "d \<noteq> []" using assms by (auto simp add: d_def dropWhile_eq_Nil_conv)
  moreover have "d \<noteq> [] \<Longrightarrow> hd d = CHR '' ''"
    unfolding d_def using hd_dropWhile [of "\<lambda>c. c \<noteq> CHR '' ''" "rev s"] by simp
  ultimately obtain d' where d: "d = CHR '' '' # d'" by (cases d) auto
  have s: "s = rev d' @ '' '' @ rev t"
    using rs d by (metis append_Cons append_Nil rev.simps(2) rev_append rev_rev_ident append_assoc)
  have nt: "CHR '' '' \<notin> set (rev t)"
    unfolding t_def using set_takeWhileD [of "CHR '' ''" "\<lambda>c. c \<noteq> CHR '' ''" "rev s"] by auto
  have "length s = length d' + 1 + length t" using s by simp
  then have "take (length s - length t - 1) s = rev d'"
    using s by simp
  then have "rsplit_space s = (rev d', rev t)"
    by (simp add: rsplit_space_def Let_def t_def)
  with s nt show ?thesis by blast
qed


lemma split_city_team_match:
  assumes "strip full_name \<noteq> []" and "[] \<notin> set ns"
    and "\<forall>x \<in> set ns. \<forall>y \<in> set ns. endswith y x \<longrightarrow> x = y"
    and "nick \<in> set ns" and "endswith (strip full_name) nick"
  shows "split_city_team_with ns full_name =
     (strip (take (length (strip full_name) - length nick) (strip full_name)), nick)"
proof -
  from assms(2,4) have "nick \<noteq> []" by blast
  then have "drop_last (length nick) (strip full_name) =
      take (length (strip full_name) - length nick) (strip full_name)"
    by (simp add: drop_last_def)
  with assms(1) find_nickname [OF assms(3,4,5)] show ?thesis
    by (simp add: split_city_team_with_def Let_def strip_no_trailing_space)
qed

lemma split_city_team_no_match:
  assumes "strip full_name \<noteq> []" and "\<forall>nick \<in> set ns. \<not> endswith (strip full_name) nick"
  shows "split_city_team_with ns full_name =
     (if CHR '' '' \<in> set (strip full_name) then rsplit_space (strip full_name)
      else (strip full_name, []))"
proof -
  from assms(2) have "find (endswith (strip full_name)) ns = None"
    by (simp add: find_None_iff)
  with assms(1) show ?thesis
    by (simp add: split_city_team_with_def Let_def)
qed

text \<open>
  Claim C9, as the code has it, for the curated set of each name-based league (the set of
  the NHL loader, and the NHL and NFL sets of the league concatenation), in any order of
  iteration. For a full team name that is not empty after \<open>strip\<close>: when the name ends with
  a curated nickname, the result is the stripped prefix and that nickname, and no other
  curated nickname the name ends with is longer (the first match is the longest match);
  when it ends with none and contains a space character, the name is split at its last
  space character; when it has no space character, the whole name is the city and the
  nickname is empty. A name that is empty after \<open>strip\<close> gives two empty strings. Vegas
  Golden Knights gives the city Vegas, Toronto Maple Leafs the city Toronto.
\<close>

theorem split_city_team_spec:
  assumes "set ns = set MULTIWORD_NICKNAMES \<or> set ns = set MULTIWORD_NICKNAMES_NHL \<or>
           set ns = set MULTIWORD_NICKNAMES_NFL"
  shows "(strip full_name = [] \<longrightarrow> split_city_team_with ns full_name = ([], [])) \<and>
         (strip full_name \<noteq> [] \<longrightarrow>
            (\<forall>nick \<in> set ns. endswith (strip full_name) nick \<longrightarrow>
               split_city_team_with ns full_name =
                 (strip (take (length (strip full_name) - length nick) (strip full_name)), nick) \<and>
               (\<forall>other \<in> set ns.
                  endswith (strip full_name) other \<longrightarrow> length other \<le> length nick)) \<and>
            ((\<forall>nick \<in> set ns. \<not> endswith (strip full_name) nick) \<and>
             CHR '' '' \<in> set (strip full_name) \<longrightarrow>
               (\<exists>c n. strip full_name = c @ '' '' @ n \<and> CHR '' '' \<notin> set n \<and>
                      split_city_team_with ns full_name = (c, n))) \<and>
            ((\<forall>nick \<in> set ns. \<not> endswith (strip full_name) nick) \<and>
             CHR '' '' \<notin> set (strip full_name) \<longrightarrow>
               split_city_team_with ns full_name = (strip full_name, []))) \<and>
         split_city_team full_name = split_city_team_with MULTIWORD_NICKNAMES full_name \<and>
         split_city_team ''Vegas Golden Knights'' = (''Vegas'', ''Golden Knights'') \<and>
         split_city_team ''Toronto Maple Leafs'' = (''Toronto'', ''Maple Leafs'') \<and>
         split_city_team_with MULTIWORD_NICKNAMES_NHL ''Vegas Golden Knights'' =
           (''Vegas'', ''Golden Knights'') \<and>
         split_city_team_with MULTIWORD_NICKNAMES_NHL ''Toronto Maple Leafs'' =
           (''Toronto'', ''Maple Leafs'') \<and>
         split_city_team_with MULTIWORD_NICKNAMES_NFL ''Washington Football Team'' =
           (''Washington'', ''Football Team'')"
proof -
  note cur = curated_nicknames [OF assms]
  have blank: "strip full_name = [] \<longrightarrow> split_city_team_with ns full_name = ([], [])"
    by (simp add: split_city_team_with_def)
  have match: "\<forall>nick \<in> set ns. endswith (strip full_name) nick \<longrightarrow>
      split_city_team_with ns full_name =
        (strip (take (length (strip full_name) - length nick) (strip full_name)), nick) \<and>
      (\<forall>other \<in> set ns. endswith (strip full_name) other \<longrightarrow> length other \<le> length nick)"
    if ne: "strip full_name \<noteq> []"
  proof (intro ballI impI conjI)
    fix nick assume n: "nick \<in> set ns" "endswith (strip full_name) nick"
    from split_city_team_match [OF ne cur n]
    show "split_city_team_with ns full_name =
        (strip (take (length (strip full_name) - length nick) (strip full_name)), nick)" .
    fix other assume "other \<in> set ns" "endswith (strip full_name) other"
    with n nickname_unique [OF cur(2)] have "other = nick" by blast
    then show "length other \<le> length nick" by simp
  qed
  have space: "(\<forall>nick \<in> set ns. \<not> endswith (strip full_name) nick) \<and>
      CHR '' '' \<in> set (strip full_name) \<longrightarrow>
      (\<exists>c n. strip full_name = c @ '' '' @ n \<and> CHR '' '' \<notin> set n \<and>
             split_city_team_with ns full_name = (c, n))"
    if ne: "strip full_name \<noteq> []"
  proof
    assume a: "(\<forall>nick \<in> set ns. \<not> endswith (strip full_name) nick) \<and>
      CHR '' '' \<in> set (strip full_name)"
    then have "split_city_team_with ns full_name = rsplit_space (strip full_name)"
      using split_city_team_no_match [OF ne, of ns] by simp
    with rsplit_space_split [of "strip full_name"] a
    show "\<exists>c n. strip full_name = c @ '' '' @ n \<and> CHR '' '' \<notin> set n \<and>
             split_city_team_with ns full_name = (c, n)"
      by simp
  qed
  have nospace: "(\<forall>nick \<in> set ns. \<not> endswith (strip full_name) nick) \<and>
      CHR '' '' \<notin> set (strip full_name) \<longrightarrow>
      split_city_team_with ns full_name = (strip full_name, [])"
    if ne: "strip full_name \<noteq> []"
    using split_city_team_no_match [OF ne, of ns] by simp
  have loader: "split_city_team full_name = split_city_team_with MULTIWORD_NICKNAMES full_name"
    by (simp add: split_city_team_def)
  have ex: "split_city_team ''Vegas Golden Knights'' = (''Vegas'', ''Golden Knights'')"
    "split_city_team ''Toronto Maple Leafs'' = (''Toronto'', ''Maple Leafs'')"
    "split_city_team_with MULTIWORD_NICKNAMES_NHL ''Vegas Golden Knights'' =
       (''Vegas'', ''Golden Knights'')"
    "split_city_team_with MULTIWORD_NICKNAMES_NHL ''Toronto Maple Leafs'' =
       (''Toronto'', ''Maple Leafs'')"
    "split_city_team_with MULTIWORD_NICKNAMES_NFL ''Washington Football Team'' =
       (''Washington'', ''Football Team'')"
    by code_simp+
  from blank match space nospace loader ex show ?thesis by blast
qed

theorem split_city_team_spec_witness:
  "set (rev MULTIWORD_NICKNAMES_NFL) = set MULTIWORD_NICKNAMES_NFL \<and>
   strip ''Washington Football Team '' \<noteq> [] \<and>
   ''Football Team'' \<in> set (rev MULTIWORD_NICKNAMES_NFL) \<and>
   endswith (strip ''Washington Football Team '') ''Football Team'' \<and>
   split_city_team_with (rev MULTIWORD_NICKNAMES_NFL) ''Washington Football Team '' =
     (''Washington'', ''Football Team'') \<and>
   strip ''New York Rangers'' \<noteq> [] \<and>
   \<not> list_ex (endswith (strip ''New York Rangers'')) MULTIWORD_NICKNAMES \<and>
   CHR '' '' \<in> set (strip ''New York Rangers'') \<and>
   (\<exists>c n. strip ''New York Rangers'' = c @ '' '' @ n \<and> CHR '' '' \<notin> set n \<and>
          split_city_team_with MULTIWORD_NICKNAMES ''New York Rangers'' = (c, n)) \<and>
   split_city_team ''New York Rangers'' = (''New York'', ''Rangers'') \<and>
   strip blank_name = [] \<and>
   split_city_team_with MULTIWORD_NICKNAMES_NFL blank_name = ([], [])"
proof -
  have s1: "set (rev MULTIWORD_NICKNAMES_NFL) = set MULTIWORD_NICKNAMES_NFL"
    by simp
  then have c1: "set (rev MULTIWORD_NICKNAMES_NFL) = set MULTIWORD_NICKNAMES \<or>
      set (rev MULTIWORD_NICKNAMES_NFL) = set MULTIWORD_NICKNAMES_NHL \<or>
      set (rev MULTIWORD_NICKNAMES_NFL) = set MULTIWORD_NICKNAMES_NFL"
    by simp
  have c2: "set MULTIWORD_NICKNAMES = set MULTIWORD_NICKNAMES \<or>
      set MULTIWORD_NICKNAMES = set MULTIWORD_NICKNAMES_NHL \<or>
      set MULTIWORD_NICKNAMES = set MULTIWORD_NICKNAMES_NFL"
    by simp
  have c3: "set MULTIWORD_NICKNAMES_NFL = set MULTIWORD_NICKNAMES \<or>
      set MULTIWORD_NICKNAMES_NFL = set MULTIWORD_NICKNAMES_NHL \<or>
      set MULTIWORD_NICKNAMES_NFL = set MULTIWORD_NICKNAMES_NFL"
    by simp
  have w: "strip ''Washington Football Team '' \<noteq> []"
    "''Football Team'' \<in> set (rev MULTIWORD_NICKNAMES_NFL)"
    "endswith (strip ''Washington Football Team '') ''Football Team''"
    "strip (take (length (strip ''Washington Football Team '') - length ''Football Team'')
       (strip ''Washington Football Team '')) = ''Washington''"
    by code_simp+
  have r: "strip ''New York Rangers'' \<noteq> []"
    "\<not> list_ex (endswith (strip ''New York Rangers'')) MULTIWORD_NICKNAMES"
    "CHR '' '' \<in> set (strip ''New York Rangers'')"
    "split_city_team ''New York Rangers'' = (''New York'', ''Rangers'')"
    by code_simp+
  have b: "strip blank_name = []"
    by code_simp
  from split_city_team_spec [OF c1, of "''Washington Football Team ''"] w
  have p1: "split_city_team_with (rev MULTIWORD_NICKNAMES_NFL) ''Washington Football Team '' =
     (''Washington'', ''Football Team'')"
    by (simp only:) simp
  from r(2) have none: "\<forall>nick \<in> set MULTIWORD_NICKNAMES. \<not> endswith (strip ''New York Rangers'') nick"
    by (simp add: list_ex_iff)
  from split_city_team_spec [OF c2, of "''New York Rangers''"] r(1,3) none
  have p2: "\<exists>c n. strip ''New York Rangers'' = c @ '' '' @ n \<and> CHR '' '' \<notin> set n \<and>
          split_city_team_with MULTIWORD_NICKNAMES ''New York Rangers'' = (c, n)"
    by blast
  from split_city_team_spec [OF c3, of blank_name] b
  have p3: "split_city_team_with MULTIWORD_NICKNAMES_NFL blank_name = ([], [])"
    by blast
  from s1 w(1,2,3) p1 r p2 b p3 show ?thesis
    by (simp only: simp_thms)
qed

text \<open>
  The claim as stated splits a name without a curated nickname at its last whitespace
  boundary. A name whose only whitespace is a tab is returned whole, with an empty
  nickname; a name of spaces only gives two empty strings.
\<close>

theorem split_city_team_counterexample:
  "tab_name \<noteq> [] \<and> strip tab_name = tab_name \<and> list_ex is_space tab_name \<and>
   \<not> list_ex (endswith tab_name) MULTIWORD_NICKNAMES \<and>
   spec_split_last_whitespace tab_name = (''Vegas'', ''Knights'') \<and>
   split_city_team tab_name = (tab_name, []) \<and>
   split_city_team_with MULTIWORD_NICKNAMES_NFL tab_name = (tab_name, []) \<and>
   blank_name \<noteq> [] \<and> split_city_team blank_name = ([], []) \<and>
   spec_split_last_whitespace blank_name = ('' '', [])"
  by code_simp

text \<open>The result does not depend on the order in which the set of nicknames is iterated.\<close>

lemma split_city_team_order:
  assumes "set ns = set ms"
    and "set ms = set MULTIWORD_NICKNAMES \<or> set ms = set MULTIWORD_NICKNAMES_NHL \<or>
         set ms = set MULTIWORD_NICKNAMES_NFL"
  shows "split_city_team_with ns full_name = split_city_team_with ms full_name"
proof (cases "strip full_name = []")
  case True
  then show ?thesis by (simp add: split_city_team_with_def)
next
  case False
  note cm = curated_nicknames [OF assms(2)]
  from assms have "set ns = set MULTIWORD_NICKNAMES \<or> set ns = set MULTIWORD_NICKNAMES_NHL \<or>
         set ns = set MULTIWORD_NICKNAMES_NFL"
    by simp
  note cn = curated_nicknames [OF this]
  show ?thesis
  proof (cases "\<exists>nick \<in> set ms. endswith (strip full_name) nick")
    case True
    then obtain nick where n: "nick \<in> set ms" "endswith (strip full_name) nick"
      by blast
    from n(1) assms(1) have n': "nick \<in> set ns" by simp
    from split_city_team_match [OF False cn n' n(2)]
      split_city_team_match [OF False cm n]
    show ?thesis by simp
  next
    case no: False
    then have a: "\<forall>nick \<in> set ms. \<not> endswith (strip full_name) nick" by blast
    with assms(1) have b: "\<forall>nick \<in> set ns. \<not> endswith (strip full_name) nick" by simp
    from split_city_team_no_match [OF False a] split_city_team_no_match [OF False b]
    show ?thesis by simp
  qed
qed

section \<open>Properties of the NHL loader\<close>

lemma nhl_game_example: "nhl_game example_raw = example_game"
  by code_simp

text \<open>
  Claim C1. Loading the same raw file twice must leave the canonical tables as they were
  after the first load. With a raw file that holds the same game twice and no games table
  yet, the first load writes both rows (the branch for an empty games table skips
  \<^verbatim>\<open>drop_duplicates\<close>), and the second load removes one of them.
\<close>

theorem load_nhl_twice_differs:
  "games_csv (load_nhl (Some [example_raw, example_raw]) empty_store)
     = Some [example_game, example_game] \<and>
   games_csv (load_nhl (Some [example_raw, example_raw])
               (load_nhl (Some [example_raw, example_raw]) empty_store))
     = Some [example_game]"
  by code_simp

text \<open>
  Where the second load does leave the tables as they were: the city and team tables
  always, and the games table whenever it had rows before the first load or the raw file
  gives every game id once.
\<close>

lemma ensure_city_fields:
  "new_team_rows (ensure_city c acc) = new_team_rows acc"
  "new_game_rows (ensure_city c acc) = new_game_rows acc"
  "existing_team_ids (ensure_city c acc) = existing_team_ids acc"
  "existing_city_ids acc \<subseteq> existing_city_ids (ensure_city c acc)"
  "c = [] \<or> slugify c \<in> existing_city_ids (ensure_city c acc)"
  by (auto simp add: ensure_city_def)

lemma ensure_team_fields:
  "new_city_rows (ensure_team f c n acc) = new_city_rows acc"
  "new_game_rows (ensure_team f c n acc) = new_game_rows acc"
  "existing_city_ids (ensure_team f c n acc) = existing_city_ids acc"
  "existing_team_ids acc \<subseteq> existing_team_ids (ensure_team f c n acc)"
  "''nhl_'' @ slugify f \<in> existing_team_ids (ensure_team f c n acc)"
  by (auto simp add: ensure_team_def)

lemma ensure_city_inv: "ids_inv C T acc \<Longrightarrow> ids_inv C T (ensure_city c acc)"
  by (auto simp add: ids_inv_def ensure_city_def)

lemma ensure_team_inv: "ids_inv C T acc \<Longrightarrow> ids_inv C T (ensure_team f c n acc)"
  by (auto simp add: ids_inv_def ensure_team_def)

lemma step_inv: "ids_inv C T acc \<Longrightarrow> ids_inv C T (nhl_row_step acc r)"
proof -
  assume "ids_inv C T acc"
  then have "ids_inv C T
     (ensure_team (strip (n_Home r)) (fst (split_city_team (strip (n_Home r))))
        (snd (split_city_team (strip (n_Home r))))
        (ensure_team (strip (n_Away r)) (fst (split_city_team (strip (n_Away r))))
           (snd (split_city_team (strip (n_Away r))))
           (ensure_city (fst (split_city_team (strip (n_Home r))))
              (ensure_city (fst (split_city_team (strip (n_Away r)))) acc))))"
    by (intro ensure_team_inv ensure_city_inv)
  then show ?thesis
    by (simp add: nhl_row_step_def Let_def ids_inv_def)
qed

lemma fold_inv: "ids_inv C T acc \<Longrightarrow> ids_inv C T (foldl nhl_row_step acc rs)"
  by (induction rs arbitrary: acc) (simp_all add: step_inv)

lemma step_games: "new_game_rows (nhl_row_step acc r) = new_game_rows acc @ [nhl_game r]"
  by (simp add: nhl_row_step_def Let_def ensure_team_fields ensure_city_fields)

lemma fold_games: "new_game_rows (foldl nhl_row_step acc rs) = new_game_rows acc @ map nhl_game rs"
  by (induction rs arbitrary: acc) (simp_all add: step_games)

lemma step_mono:
  "existing_city_ids acc \<subseteq> existing_city_ids (nhl_row_step acc r)"
  "existing_team_ids acc \<subseteq> existing_team_ids (nhl_row_step acc r)"
proof -
  let ?a = "ensure_city (fst (split_city_team (strip (n_Away r)))) acc"
  let ?b = "ensure_city (fst (split_city_team (strip (n_Home r)))) ?a"
  let ?c = "ensure_team (strip (n_Away r)) (fst (split_city_team (strip (n_Away r))))
           (snd (split_city_team (strip (n_Away r)))) ?b"
  let ?d = "ensure_team (strip (n_Home r)) (fst (split_city_team (strip (n_Home r))))
        (snd (split_city_team (strip (n_Home r)))) ?c"
  have s: "existing_city_ids (nhl_row_step acc r) = existing_city_ids ?d"
    "existing_team_ids (nhl_row_step acc r) = existing_team_ids ?d"
    by (simp_all add: nhl_row_step_def Let_def)
  have "existing_city_ids acc \<subseteq> existing_city_ids ?a" "existing_city_ids ?a \<subseteq> existing_city_ids ?b"
    by (rule ensure_city_fields(4))+
  then show "existing_city_ids acc \<subseteq> existing_city_ids (nhl_row_step acc r)"
    by (auto simp add: s ensure_team_fields)
  have "existing_team_ids ?b \<subseteq> existing_team_ids ?c" "existing_team_ids ?c \<subseteq> existing_team_ids ?d"
    by (rule ensure_team_fields(4))+
  then show "existing_team_ids acc \<subseteq> existing_team_ids (nhl_row_step acc r)"
    by (auto simp add: s ensure_city_fields)
qed

lemma fold_mono:
  "existing_city_ids acc \<subseteq> existing_city_ids (foldl nhl_row_step acc rs) \<and>
   existing_team_ids acc \<subseteq> existing_team_ids (foldl nhl_row_step acc rs)"
proof (induction rs arbitrary: acc)
  case Nil
  show ?case by simp
next
  case (Cons r rs)
  from step_mono [of acc r] Cons.IH [of "nhl_row_step acc r"] show ?case by auto
qed

lemma covered_mono: "covered cs ts r \<Longrightarrow> cs \<subseteq> cs' \<Longrightarrow> ts \<subseteq> ts' \<Longrightarrow> covered cs' ts' r"
  by (auto simp add: covered_def)

lemma step_covers:
  "covered (existing_city_ids (nhl_row_step acc r)) (existing_team_ids (nhl_row_step acc r)) r"
proof -
  let ?ca = "fst (split_city_team (strip (n_Away r)))" and ?ch = "fst (split_city_team (strip (n_Home r)))"
  let ?a = "ensure_city ?ca acc"
  let ?b = "ensure_city ?ch ?a"
  let ?c = "ensure_team (strip (n_Away r)) ?ca (snd (split_city_team (strip (n_Away r)))) ?b"
  let ?d = "ensure_team (strip (n_Home r)) ?ch (snd (split_city_team (strip (n_Home r)))) ?c"
  have s: "existing_city_ids (nhl_row_step acc r) = existing_city_ids ?b"
    "existing_team_ids (nhl_row_step acc r) = existing_team_ids ?d"
    by (simp_all add: nhl_row_step_def Let_def ensure_team_fields)
  have c1: "?ca = [] \<or> slugify ?ca \<in> existing_city_ids ?b"
    using ensure_city_fields(5) [of ?ca acc] ensure_city_fields(4) [of ?a ?ch] by blast
  have c2: "?ch = [] \<or> slugify ?ch \<in> existing_city_ids ?b"
    by (rule ensure_city_fields(5))
  have t1: "''nhl_'' @ slugify (strip (n_Away r)) \<in> existing_team_ids ?d"
    using ensure_team_fields(5) [of "strip (n_Away r)" ?ca "snd (split_city_team (strip (n_Away r)))" ?b]
      ensure_team_fields(4) [of ?c "strip (n_Home r)" ?ch "snd (split_city_team (strip (n_Home r)))"]
    by blast
  have t2: "''nhl_'' @ slugify (strip (n_Home r)) \<in> existing_team_ids ?d"
    by (rule ensure_team_fields(5))
  from c1 c2 t1 t2 show ?thesis
    unfolding covered_def s by blast
qed

lemma fold_covers:
  "r \<in> set rs \<Longrightarrow>
     covered (existing_city_ids (foldl nhl_row_step acc rs)) (existing_team_ids (foldl nhl_row_step acc rs)) r"
proof (induction rs arbitrary: acc)
  case Nil
  then show ?case by simp
next
  case (Cons x rs)
  show ?case
  proof (cases "r = x")
    case True
    from fold_mono [of "nhl_row_step acc x" rs]
    have "existing_city_ids (nhl_row_step acc x) \<subseteq> existing_city_ids (foldl nhl_row_step (nhl_row_step acc x) rs)"
      and "existing_team_ids (nhl_row_step acc x) \<subseteq> existing_team_ids (foldl nhl_row_step (nhl_row_step acc x) rs)"
      by blast+
    from covered_mono [OF step_covers [of acc x] this] True
    show ?thesis by simp
  next
    case False
    with Cons.prems have "r \<in> set rs" by simp
    from Cons.IH [OF this, of "nhl_row_step acc x"] show ?thesis by simp
  qed
qed

lemma step_covered_noop:
  assumes "covered (existing_city_ids acc) (existing_team_ids acc) r"
  shows "nhl_row_step acc r = acc\<lparr>new_game_rows := new_game_rows acc @ [nhl_game r]\<rparr>"
  using assms
  by (auto simp add: covered_def nhl_row_step_def Let_def ensure_city_def ensure_team_def)

lemma fold_covered_noop:
  assumes "\<forall>r \<in> set rs. covered (existing_city_ids acc) (existing_team_ids acc) r"
  shows "foldl nhl_row_step acc rs = acc\<lparr>new_game_rows := new_game_rows acc @ map nhl_game rs\<rparr>"
  using assms
proof (induction rs arbitrary: acc)
  case Nil
  then show ?case by simp
next
  case (Cons r rs)
  from Cons.prems have s: "nhl_row_step acc r = acc\<lparr>new_game_rows := new_game_rows acc @ [nhl_game r]\<rparr>"
    by (simp add: step_covered_noop)
  from Cons.prems have "\<forall>x \<in> set rs. covered (existing_city_ids (nhl_row_step acc r))
      (existing_team_ids (nhl_row_step acc r)) x"
    by (simp add: s)
  from Cons.IH [OF this] show ?case
    by (simp add: s)
qed

lemma drop_duplicates_append:
  "drop_duplicates key seen (xs @ ys) =
     drop_duplicates key seen xs @ drop_duplicates key (seen \<union> key ` set xs) ys"
proof (induction xs arbitrary: seen)
  case Nil
  then show ?case by simp
next
  case (Cons x xs)
  have "insert (key x) seen \<union> key ` set xs = seen \<union> key ` set (x # xs)" by auto
  moreover have "key x \<in> seen \<Longrightarrow> seen \<union> key ` set xs = seen \<union> key ` set (x # xs)" by auto
  ultimately show ?case
    using Cons.IH [of seen] Cons.IH [of "insert (key x) seen"] by simp
qed

lemma drop_duplicates_seen: "key ` set xs \<subseteq> seen \<Longrightarrow> drop_duplicates key seen xs = []"
  by (induction xs) auto

lemma drop_duplicates_keys: "seen \<union> key ` set (drop_duplicates key seen xs) = seen \<union> key ` set xs"
proof (induction xs arbitrary: seen)
  case Nil
  show ?case by simp
next
  case (Cons x xs)
  show ?case
  proof (cases "key x \<in> seen")
    case True
    with Cons.IH [of seen] show ?thesis by auto
  next
    case False
    with Cons.IH [of "insert (key x) seen"] show ?thesis by auto
  qed
qed

lemma drop_duplicates_idem:
  "drop_duplicates key seen (drop_duplicates key seen xs) = drop_duplicates key seen xs"
proof (induction xs arbitrary: seen)
  case Nil
  then show ?case by simp
next
  case (Cons x xs)
  then show ?case by simp
qed

lemma drop_duplicates_distinct:
  "distinct (map key xs) \<Longrightarrow> key ` set xs \<inter> seen = {} \<Longrightarrow> drop_duplicates key seen xs = xs"
  by (induction xs arbitrary: seen) auto

lemma drop_duplicates_nonempty: "xs \<noteq> [] \<Longrightarrow> drop_duplicates key {} xs \<noteq> []"
  by (cases xs) simp_all

lemma merge_games_again:
  assumes "new \<noteq> []" and "old \<noteq> [] \<or> distinct (map game_id new)"
  shows "merge_games (merge_games old new) new = merge_games old new"
proof (cases "old = []")
  case True
  with assms(2) have d: "distinct (map game_id new)" by simp
  have "drop_duplicates game_id {} (new @ new) = new"
    by (simp add: drop_duplicates_append drop_duplicates_seen drop_duplicates_distinct [OF d])
  with True assms(1) show ?thesis
    by (simp add: merge_games_def)
next
  case False
  let ?m = "drop_duplicates game_id {} (old @ new)"
  from False have ne: "?m \<noteq> []"
    by (simp add: drop_duplicates_nonempty)
  have keys: "game_id ` set new \<subseteq> {} \<union> game_id ` set ?m"
    by (simp only: drop_duplicates_keys) auto
  have "drop_duplicates game_id {} (?m @ new) = ?m"
    using drop_duplicates_seen [OF keys]
    by (simp add: drop_duplicates_append [of game_id "{}" ?m new] drop_duplicates_idem)
  with False assms(1) ne show ?thesis
    by (simp add: merge_games_def)
qed


text \<open>What one load writes, for a raw file with rows.\<close>

lemma load_nhl_rows:
  assumes "safe_read_csv raw \<noteq> []"
  shows "load_nhl raw st =
     \<lparr>cities_csv = Some (safe_read_csv (cities_csv st) @
                          new_city_rows (foldl nhl_row_step (nhl_start st) (safe_read_csv raw))),
      teams_csv = Some (safe_read_csv (teams_csv st) @
                          new_team_rows (foldl nhl_row_step (nhl_start st) (safe_read_csv raw))),
      games_csv = Some (merge_games (safe_read_csv (games_csv st))
                          (map nhl_game (safe_read_csv raw)))\<rparr>"
  using assms by (simp add: load_nhl_def Let_def nhl_start_def fold_games)

lemma second_load_adds_nothing:
  assumes "safe_read_csv raw \<noteq> []"
  shows "new_city_rows (foldl nhl_row_step (nhl_start (load_nhl raw st)) (safe_read_csv raw)) = [] \<and>
         new_team_rows (foldl nhl_row_step (nhl_start (load_nhl raw st)) (safe_read_csv raw)) = []"
proof -
  let ?rs = "safe_read_csv raw"
  let ?acc = "foldl nhl_row_step (nhl_start st) ?rs"
  let ?st1 = "load_nhl raw st"
  have "ids_inv (set (map city_id (safe_read_csv (cities_csv st))))
      (set (map t_team_id (safe_read_csv (teams_csv st)))) (nhl_start st)"
    by (simp add: ids_inv_def nhl_start_def)
  then have "ids_inv (set (map city_id (safe_read_csv (cities_csv st))))
      (set (map t_team_id (safe_read_csv (teams_csv st)))) ?acc"
    by (rule fold_inv)
  then have ids: "existing_city_ids (nhl_start ?st1) = existing_city_ids ?acc"
    "existing_team_ids (nhl_start ?st1) = existing_team_ids ?acc"
    by (simp_all add: load_nhl_rows [OF assms] nhl_start_def ids_inv_def safe_read_csv_def)
  have "\<forall>r \<in> set ?rs. covered (existing_city_ids (nhl_start ?st1)) (existing_team_ids (nhl_start ?st1)) r"
    by (simp add: ids fold_covers)
  then have "foldl nhl_row_step (nhl_start ?st1) ?rs =
      (nhl_start ?st1)\<lparr>new_game_rows := new_game_rows (nhl_start ?st1) @ map nhl_game ?rs\<rparr>"
    by (rule fold_covered_noop)
  then show ?thesis
    by (simp add: nhl_start_def)
qed

text \<open>The second load never changes the city and team tables.\<close>

lemma load_nhl_cities_teams_again:
  "cities_csv (load_nhl raw (load_nhl raw st)) = cities_csv (load_nhl raw st) \<and>
   teams_csv (load_nhl raw (load_nhl raw st)) = teams_csv (load_nhl raw st)"
proof (cases "safe_read_csv raw = []")
  case True
  then show ?thesis by (simp add: load_nhl_def)
next
  case False
  from second_load_adds_nothing [OF False, of st]
  show ?thesis
    by (simp add: load_nhl_rows [OF False, of "load_nhl raw st"])
      (simp add: load_nhl_rows [OF False, of st] safe_read_csv_def)
qed

text \<open>
  The second load changes nothing at all when the games table had rows before the first
  load, or when no game id occurs twice among the raw rows.
\<close>

lemma load_nhl_idempotent:
  assumes "safe_read_csv (games_csv st) \<noteq> [] \<or>
           distinct (map (\<lambda>r. game_id (nhl_game r)) (safe_read_csv raw))"
  shows "load_nhl raw (load_nhl raw st) = load_nhl raw st"
proof (cases "safe_read_csv raw = []")
  case True
  then show ?thesis by (simp add: load_nhl_def)
next
  case False
  let ?new = "map nhl_game (safe_read_csv raw)"
  from False have n: "?new \<noteq> []" by simp
  from assms have "safe_read_csv (games_csv st) \<noteq> [] \<or> distinct (map game_id ?new)"
    by (simp add: comp_def)
  from merge_games_again [OF n this]
  have g: "merge_games (merge_games (safe_read_csv (games_csv st)) ?new) ?new
      = merge_games (safe_read_csv (games_csv st)) ?new" .
  have "games_csv (load_nhl raw (load_nhl raw st)) = games_csv (load_nhl raw st)"
    by (simp add: load_nhl_rows [OF False, of "load_nhl raw st"])
      (simp add: load_nhl_rows [OF False, of st] safe_read_csv_def g [unfolded safe_read_csv_def])
  with load_nhl_cities_teams_again [of raw st] show ?thesis
    by (simp add: store.equality)
qed

section \<open>Properties of the NBA loader\<close>

lemma nba_row_not_decisive: "\<not> decisive (nba_game_row m r)" "\<not> decisive (read_back_game (nba_game_row m r))"
  by (simp_all add: decisive_def nba_game_row_def read_back_game_def Let_def parse_scores_def
      parse_score_def)

text \<open>
  Claim C10. Every game row the NBA loader emits has the empty string in \<open>home_score\<close> and
  \<open>away_score\<close>, whatever its \<open>winning_team_id\<close>; the ledger builder therefore takes it
  for an incomplete game (as emitted, and as read back from games.csv) and gives both
  perspectives the empty result, \<open>index_score\<close> 0 and \<open>weighted_score\<close> 0.
\<close>

theorem nba_games_are_incomplete:
  assumes "g \<in> set (nba_new_games m frame)"
  shows "home_score g = Blank \<and> away_score g = Blank \<and>
         \<not> decisive g \<and> \<not> decisive (read_back_game g) \<and>
         (\<forall>e \<in> set (game_rows w g) \<union> set (game_rows w (read_back_game g)).
            result e = [] \<and> index_score e = 0 \<and> weighted_score e = 0)"
proof -
  from assms obtain r where g: "g = nba_game_row m r"
    by (auto simp add: nba_new_games_def)
  have s: "home_score g = Blank \<and> away_score g = Blank"
    by (simp add: g nba_game_row_def Let_def)
  have d: "\<not> decisive g" "\<not> decisive (read_back_game g)"
    by (simp_all add: g nba_row_not_decisive)
  from game_rows_incomplete [OF d(1)] game_rows_incomplete [OF d(2)] s d show ?thesis
    by blast
qed

theorem nba_games_are_incomplete_witness:
  "nba_game_row Map.empty example_nba_row \<in> set (nba_new_games Map.empty [example_nba_row]) \<and>
   winning_team_id (nba_game_row Map.empty example_nba_row) = Some ''nba_DEN'' \<and>
   home_score (nba_game_row Map.empty example_nba_row) = Blank \<and>
   away_score (nba_game_row Map.empty example_nba_row) = Blank \<and>
   \<not> decisive (nba_game_row Map.empty example_nba_row) \<and>
   map index_score (game_rows default_weights (nba_game_row Map.empty example_nba_row)) = [0, 0]"
proof -
  have h: "nba_game_row Map.empty example_nba_row \<in> set (nba_new_games Map.empty [example_nba_row])"
    by (simp add: nba_new_games_def)
  have w: "winning_team_id (nba_game_row Map.empty example_nba_row) = Some ''nba_DEN''"
    by code_simp
  have v: "map index_score (game_rows default_weights (nba_game_row Map.empty example_nba_row)) = [0, 0]"
    by code_simp
  from nba_games_are_incomplete [OF h, of default_weights] h w v show ?thesis
    by blast
qed

section \<open>Properties of the rollups\<close>

lemma set_map_filter_key: "set (List.map_filter key df) = {k. \<exists>r \<in> set df. key r = Some k}"
  by (auto simp add: List.map_filter_def intro: rev_image_eqI)

lemma groupby_keys:
  "map group_key (groupby_agg key df) = sort (remdups (List.map_filter key df))"
  by (simp add: groupby_agg_def comp_def)

lemma groupby_keys_set:
  "set (map group_key (groupby_agg key df)) = {k. \<exists>r \<in> set df. key r = Some k}"
  by (simp only: groupby_keys set_sort set_remdups set_map_filter_key)

lemma groupby_keys_distinct: "distinct (map group_key (groupby_agg key df))"
  by (simp only: groupby_keys distinct_sort distinct_remdups)

lemma groupby_row_sums:
  assumes "row \<in> set (groupby_agg key df)"
  shows "sums_of_key key df row"
proof -
  from assms obtain k where k: "k \<in> set (sort (remdups (List.map_filter key df)))"
    and row: "row = \<lparr>group_key = k,
        index_score_sum = sum_list (map m_index_score (filter (\<lambda>r. key r = Some k) df)),
        weighted_score_sum = sum_list (map m_weighted_score (filter (\<lambda>r. key r = Some k) df)),
        games = length (filter (\<lambda>r. key r = Some k) df)\<rparr>"
    by (auto simp add: groupby_agg_def)
  from k obtain r where "r \<in> set df" "key r = Some k"
    by (auto simp add: set_map_filter_key)
  then have "filter (\<lambda>r. key r = Some k) df \<noteq> []"
    by (auto simp add: filter_empty_conv)
  then show ?thesis
    by (simp add: sums_of_key_def row)
qed

lemma indicator_sum_distinct:
  assumes "distinct ks"
  shows "sum_list (map (\<lambda>k. if x = Some k then 1 else 0) ks) = (if \<exists>k \<in> set ks. x = Some k then 1 else (0::nat))"
  using assms by (induction ks) auto

lemma count_partition:
  assumes "distinct ks"
  shows "sum_list (map (\<lambda>k. length (filter (\<lambda>r. key r = Some k) df)) ks)
         = length (filter (\<lambda>r. \<exists>k \<in> set ks. key r = Some k) df)"
proof (induction df)
  case Nil
  show ?case by simp
next
  case (Cons r df)
  have "sum_list (map (\<lambda>k. length (filter (\<lambda>r. key r = Some k) (r # df))) ks)
      = sum_list (map (\<lambda>k. (if key r = Some k then 1 else 0) + length (filter (\<lambda>r. key r = Some k) df)) ks)"
    by (rule arg_cong [where f = sum_list]) (rule map_cong, simp_all)
  also have "\<dots> = sum_list (map (\<lambda>k. if key r = Some k then 1 else 0) ks)
      + sum_list (map (\<lambda>k. length (filter (\<lambda>r. key r = Some k) df)) ks)"
    by (simp add: sum_list_addf)
  also have "\<dots> = (if \<exists>k \<in> set ks. key r = Some k then 1 else 0)
      + length (filter (\<lambda>r. \<exists>k \<in> set ks. key r = Some k) df)"
    by (simp only: indicator_sum_distinct [OF assms] Cons.IH)
  finally show ?case by simp
qed

lemma groupby_games_total:
  "sum_list (map games (groupby_agg key df)) = length (filter (\<lambda>r. key r \<noteq> None) df)"
proof -
  let ?ks = "sort (remdups (List.map_filter key df))"
  have d: "distinct ?ks" by simp
  have "map games (groupby_agg key df) = map (\<lambda>k. length (filter (\<lambda>r. key r = Some k) df)) ?ks"
    by (simp add: groupby_agg_def comp_def)
  then have "sum_list (map games (groupby_agg key df))
      = length (filter (\<lambda>r. \<exists>k \<in> set ?ks. key r = Some k) df)"
    by (simp only: count_partition [OF d])
  also have "filter (\<lambda>r. \<exists>k \<in> set ?ks. key r = Some k) df = filter (\<lambda>r. key r \<noteq> None) df"
    by (rule filter_cong) (auto simp add: set_map_filter_key)
  finally show ?thesis .
qed

lemma groupby_is_rollup: "rollup_of_keyed key df (groupby_agg key df)"
proof -
  have "list_all (sums_of_key key df) (groupby_agg key df)"
    by (simp add: list_all_iff groupby_row_sums)
  moreover have "list_all (\<lambda>r. key r = None \<or> the (key r) \<in> set (map group_key (groupby_agg key df))) df"
    unfolding list_all_iff groupby_keys_set by auto
  ultimately show ?thesis
    unfolding rollup_of_keyed_def
    using groupby_keys_distinct [of key df] groupby_games_total [of key df] by blast
qed

text \<open>The keys the code groups by are the keys of the specification.\<close>

lemma team_to_city_last_row: "team_to_city teams t = city_of_team teams t"
proof (induction teams rule: rev_induct)
  case Nil
  show ?case by (simp add: team_to_city_def city_of_team_def)
next
  case (snoc x xs)
  then show ?case
    by (cases x) (simp add: team_to_city_def city_of_team_def Let_def)
qed

lemma team_week_key_spec: "team_week_key = team_period_key m_week_start"
  by (rule ext) (simp add: team_week_key_def team_period_key_def split: option.splits)

lemma team_month_key_spec: "team_month_key = team_period_key m_month_start"
  by (rule ext) (simp add: team_month_key_def team_period_key_def split: option.splits)

lemma city_week_key_spec: "city_week_key teams = city_period_key teams m_week_start"
  by (rule ext)
    (simp add: city_week_key_def city_period_key_def row_city_def team_to_city_last_row
      split: option.splits)

lemma city_month_key_spec: "city_month_key teams = city_period_key teams m_month_start"
  by (rule ext)
    (simp add: city_month_key_def city_period_key_def row_city_def team_to_city_last_row
      split: option.splits)

text \<open>
  Claim C6, as the code has it. When team\_game\_results.csv and teams.csv both have rows,
  the four rollups are written, and in each there is one row per grouping key; its sums
  are the sums of \<open>index_score\<close> and \<open>weighted_score\<close> over the ledger rows of that key and
  \<open>games\<close> is their number; every ledger row that has a key is counted in exactly one
  rollup row. A ledger row has a team key when its league, team id and period start are
  present, and a city key when its period start is present and teams.csv maps its team id
  to a city id (the city id of the last row of that team id): rows of teams without a city
  are left out of the city rollups. When one of the two files has no rows or does not
  exist, no rollup is written.
\<close>

theorem rollups_sum_the_ledger:
  "(master = [] \<or> teams = [] \<longrightarrow> compute_rollups (Some master) (Some teams) = None) \<and>
   (master \<noteq> [] \<and> teams \<noteq> [] \<longrightarrow>
      (\<exists>out. compute_rollups (Some master) (Some teams) = Some out \<and>
         rollup_of_keyed (team_period_key m_week_start) master (team_rollup_weekly out) \<and>
         rollup_of_keyed (team_period_key m_month_start) master (team_rollup_monthly out) \<and>
         rollup_of_keyed (city_period_key teams m_week_start) master (city_rollup_weekly out) \<and>
         rollup_of_keyed (city_period_key teams m_month_start) master (city_rollup_monthly out))) \<and>
   compute_rollups None teams_file = None \<and>
   compute_rollups master_file None = None"
proof -
  have empty: "compute_rollups (Some master) (Some teams) = None" if "master = [] \<or> teams = []"
    using that by (auto simp add: compute_rollups_def safe_read_csv_def)
  have rows: "\<exists>out. compute_rollups (Some master) (Some teams) = Some out \<and>
         rollup_of_keyed (team_period_key m_week_start) master (team_rollup_weekly out) \<and>
         rollup_of_keyed (team_period_key m_month_start) master (team_rollup_monthly out) \<and>
         rollup_of_keyed (city_period_key teams m_week_start) master (city_rollup_weekly out) \<and>
         rollup_of_keyed (city_period_key teams m_month_start) master (city_rollup_monthly out)"
    if "master \<noteq> []" "teams \<noteq> []"
  proof -
    from that have "compute_rollups (Some master) (Some teams) =
        Some \<lparr>team_rollup_weekly = groupby_agg team_week_key master,
              team_rollup_monthly = groupby_agg team_month_key master,
              city_rollup_weekly = groupby_agg (city_week_key teams) master,
              city_rollup_monthly = groupby_agg (city_month_key teams) master\<rparr>"
      by (simp add: compute_rollups_def safe_read_csv_def)
    moreover have "rollup_of_keyed (team_period_key m_week_start) master (groupby_agg team_week_key master)"
      using groupby_is_rollup [of team_week_key master] by (simp add: team_week_key_spec)
    moreover have "rollup_of_keyed (team_period_key m_month_start) master (groupby_agg team_month_key master)"
      using groupby_is_rollup [of team_month_key master] by (simp add: team_month_key_spec)
    moreover have "rollup_of_keyed (city_period_key teams m_week_start) master
        (groupby_agg (city_week_key teams) master)"
      using groupby_is_rollup [of "city_week_key teams" master] by (simp add: city_week_key_spec)
    moreover have "rollup_of_keyed (city_period_key teams m_month_start) master
        (groupby_agg (city_month_key teams) master)"
      using groupby_is_rollup [of "city_month_key teams" master] by (simp add: city_month_key_spec)
    ultimately show ?thesis by simp
  qed
  have missing: "compute_rollups None teams_file = None" "compute_rollups master_file None = None"
    by (simp_all add: compute_rollups_def safe_read_csv_def)
  from empty rows missing show ?thesis by blast
qed

theorem rollups_sum_the_ledger_witness:
  "example_ledger \<noteq> [] \<and> example_team_table \<noteq> [] \<and>
   compute_rollups (Some example_ledger) (Some example_team_table) =
     Some \<lparr>team_rollup_weekly =
             [\<lparr>group_key = (''mlb'', ''mlb_XYZ'', ''2023-02-28''), index_score_sum = 1,
               weighted_score_sum = 1, games = 1\<rparr>,
              \<lparr>group_key = (''nhl'', ''nhl_toronto-maple-leafs'', ''2023-02-28''),
               index_score_sum = - 1, weighted_score_sum = - 3, games = 1\<rparr>,
              \<lparr>group_key = (''nhl'', ''nhl_vegas-golden-knights'', ''2023-02-28''),
               index_score_sum = 2, weighted_score_sum = 4, games = 2\<rparr>],
           team_rollup_monthly =
             [\<lparr>group_key = (''mlb'', ''mlb_XYZ'', ''2023-03-01''), index_score_sum = 1,
               weighted_score_sum = 1, games = 1\<rparr>,
              \<lparr>group_key = (''nhl'', ''nhl_toronto-maple-leafs'', ''2023-03-01''),
               index_score_sum = - 1, weighted_score_sum = - 3, games = 1\<rparr>,
              \<lparr>group_key = (''nhl'', ''nhl_vegas-golden-knights'', ''2023-03-01''),
               index_score_sum = 2, weighted_score_sum = 4, games = 2\<rparr>],
           city_rollup_weekly =
             [\<lparr>group_key = (''toronto'', ''2023-02-28''), index_score_sum = - 1,
               weighted_score_sum = - 3, games = 1\<rparr>,
              \<lparr>group_key = (''vegas'', ''2023-02-28''), index_score_sum = 2,
               weighted_score_sum = 4, games = 2\<rparr>],
           city_rollup_monthly =
             [\<lparr>group_key = (''toronto'', ''2023-03-01''), index_score_sum = - 1,
               weighted_score_sum = - 3, games = 1\<rparr>,
              \<lparr>group_key = (''vegas'', ''2023-03-01''), index_score_sum = 2,
               weighted_score_sum = 4, games = 2\<rparr>]\<rparr> \<and>
   rollup_of_keyed (city_period_key example_team_table m_week_start) example_ledger
     [\<lparr>group_key = (''toronto'', ''2023-02-28''), index_score_sum = - 1,
       weighted_score_sum = - 3, games = 1\<rparr>,
      \<lparr>group_key = (''vegas'', ''2023-02-28''), index_score_sum = 2,
       weighted_score_sum = 4, games = 2\<rparr>] \<and>
   rollup_of_keyed (team_period_key m_week_start) example_ledger
     [\<lparr>group_key = (''mlb'', ''mlb_XYZ'', ''2023-02-28''), index_score_sum = 1,
       weighted_score_sum = 1, games = 1\<rparr>,
      \<lparr>group_key = (''nhl'', ''nhl_toronto-maple-leafs'', ''2023-02-28''),
       index_score_sum = - 1, weighted_score_sum = - 3, games = 1\<rparr>,
      \<lparr>group_key = (''nhl'', ''nhl_vegas-golden-knights'', ''2023-02-28''),
       index_score_sum = 2, weighted_score_sum = 4, games = 2\<rparr>]"
proof -
  have h: "example_ledger \<noteq> []" "example_team_table \<noteq> []"
    by code_simp+
  have v: "compute_rollups (Some example_ledger) (Some example_team_table) =
     Some \<lparr>team_rollup_weekly =
             [\<lparr>group_key = (''mlb'', ''mlb_XYZ'', ''2023-02-28''), index_score_sum = 1,
               weighted_score_sum = 1, games = 1\<rparr>,
              \<lparr>group_key = (''nhl'', ''nhl_toronto-maple-leafs'', ''2023-02-28''),
               index_score_sum = - 1, weighted_score_sum = - 3, games = 1\<rparr>,
              \<lparr>group_key = (''nhl'', ''nhl_vegas-golden-knights'', ''2023-02-28''),
               index_score_sum = 2, weighted_score_sum = 4, games = 2\<rparr>],
           team_rollup_monthly =
             [\<lparr>group_key = (''mlb'', ''mlb_XYZ'', ''2023-03-01''), index_score_sum = 1,
               weighted_score_sum = 1, games = 1\<rparr>,
              \<lparr>group_key = (''nhl'', ''nhl_toronto-maple-leafs'', ''2023-03-01''),
               index_score_sum = - 1, weighted_score_sum = - 3, games = 1\<rparr>,
              \<lparr>group_key = (''nhl'', ''nhl_vegas-golden-knights'', ''2023-03-01''),
               index_score_sum = 2, weighted_score_sum = 4, games = 2\<rparr>],
           city_rollup_weekly =
             [\<lparr>group_key = (''toronto'', ''2023-02-28''), index_score_sum = - 1,
               weighted_score_sum = - 3, games = 1\<rparr>,
              \<lparr>group_key = (''vegas'', ''2023-02-28''), index_score_sum = 2,
               weighted_score_sum = 4, games = 2\<rparr>],
           city_rollup_monthly =
             [\<lparr>group_key = (''toronto'', ''2023-03-01''), index_score_sum = - 1,
               weighted_score_sum = - 3, games = 1\<rparr>,
              \<lparr>group_key = (''vegas'', ''2023-03-01''), index_score_sum = 2,
               weighted_score_sum = 4, games = 2\<rparr>]\<rparr>"
    by code_simp
  from rollups_sum_the_ledger [of example_ledger example_team_table] h
  obtain out where out: "compute_rollups (Some example_ledger) (Some example_team_table) = Some out"
    and t: "rollup_of_keyed (team_period_key m_week_start) example_ledger (team_rollup_weekly out)"
    and c: "rollup_of_keyed (city_period_key example_team_table m_week_start) example_ledger
        (city_rollup_weekly out)"
    by blast
  from out v t c h show ?thesis
    by auto
qed

text \<open>
  The claim as stated counts every ledger row in the city rollups too. A ledger row of a
  team that teams.csv does not list is in the team rollups and in no city rollup; without
  teams.csv it is in no rollup at all.
\<close>

theorem rollups_counterexample:
  "map games (team_rollup_weekly (the (compute_rollups (Some [example_master_row]) (Some example_teams)))) = [1] \<and>
   city_rollup_weekly (the (compute_rollups (Some [example_master_row]) (Some example_teams))) = [] \<and>
   city_rollup_monthly (the (compute_rollups (Some [example_master_row]) (Some example_teams))) = [] \<and>
   compute_rollups (Some [example_master_row]) None = None"
  by code_simp

section \<open>Properties of the daily 7-day aggregation\<close>

lemma kept_rows_iff:
  "(c, z, s) \<in> set (kept_rows df) \<longleftrightarrow>
     (\<exists>r \<in> set df. l_City r = Some c \<and> to_datetime (l_date r) = Some z \<and> cutoff \<le> z \<and>
        l_index_score r = s)"
  by (auto simp add: kept_rows_def List.map_filter_def split: option.splits if_splits
      intro!: rev_image_eqI)

lemma daily_agg_keys:
  "map fst (daily_agg kept) = sort (remdups (map (\<lambda>r. (fst r, fst (snd r))) kept))"
  by (simp add: daily_agg_def comp_def)

lemma daily_agg_one_row_per_day:
  "distinct (map fst (daily_agg kept)) \<and>
   set (map fst (daily_agg kept)) = (\<lambda>r. (fst r, fst (snd r))) ` set kept"
  by (simp only: daily_agg_keys distinct_sort distinct_remdups set_sort set_remdups set_map)

lemma daily_agg_set:
  "set (daily_agg kept) =
     (\<lambda>k. (k, day_sum kept (fst k) (snd k), day_count kept (fst k) (snd k)))
       ` ((\<lambda>r. (fst r, fst (snd r))) ` set kept)"
  by (simp add: daily_agg_def)

lemma city_days_keys: "z \<in> city_days kept c \<longleftrightarrow> (c, z) \<in> (\<lambda>r. (fst r, fst (snd r))) ` set kept"
proof
  assume "z \<in> city_days kept c"
  then obtain s where "(c, z, s) \<in> set kept" by (auto simp add: city_days_def)
  then show "(c, z) \<in> (\<lambda>r. (fst r, fst (snd r))) ` set kept"
    by (rule rev_image_eqI) simp
next
  assume "(c, z) \<in> (\<lambda>r. (fst r, fst (snd r))) ` set kept"
  then show "z \<in> city_days kept c" by (auto simp add: city_days_def)
qed

lemma distinct_map_sort_key: "distinct (map f (sort_key f xs)) = distinct (map f xs)"
  by (induction xs) (simp_all add: distinct_insort_key)

lemma city_frame_set:
  "set (city_frame (daily_agg kept) c) =
     (\<lambda>z. (z, day_sum kept c z, day_count kept c z)) ` city_days kept c"
proof -
  define K where "K = (\<lambda>r. (fst r, fst (snd r))) ` set kept"
  have dset: "set (daily_agg kept) =
      (\<lambda>k. (k, day_sum kept (fst k) (snd k), day_count kept (fst k) (snd k))) ` K"
    by (simp add: daily_agg_set K_def)
  have days: "\<And>z. z \<in> city_days kept c \<longleftrightarrow> (c, z) \<in> K"
    by (simp add: city_days_keys K_def)
  show ?thesis
    unfolding city_frame_def set_sort set_map set_filter dset
    by (force simp add: days image_iff)
qed

lemma city_frame_dates: "set (map fst (city_frame (daily_agg kept) c)) = city_days kept c"
  by (simp only: set_map city_frame_set image_image) simp

lemma city_frame_distinct: "distinct (map fst (city_frame (daily_agg kept) c))"
proof -
  let ?xs = "map (\<lambda>r. (snd (fst r), snd r)) (filter (\<lambda>r. fst (fst r) = c) (daily_agg kept))"
  have "map fst ?xs = map snd (filter (\<lambda>k. fst k = c) (map fst (daily_agg kept)))"
    by (simp add: filter_map comp_def)
  moreover have "distinct (filter (\<lambda>k. fst k = c) (map fst (daily_agg kept)))"
    using daily_agg_one_row_per_day [of kept] by simp
  moreover have "inj_on snd (set (filter (\<lambda>k. fst k = c) (map fst (daily_agg kept))))"
    by (auto simp add: inj_on_def)
  ultimately have d: "distinct (map fst ?xs)"
    by (simp add: distinct_map)
  then show ?thesis
    by (simp only: city_frame_def distinct_map_sort_key)
qed

lemma day_empty: "z \<notin> city_days kept c \<Longrightarrow> day_sum kept c z = 0 \<and> day_count kept c z = 0"
proof -
  assume "z \<notin> city_days kept c"
  then have "filter (\<lambda>r. fst r = c \<and> fst (snd r) = z) kept = []"
    by (auto simp add: city_days_def filter_empty_conv)
  then show ?thesis by (simp add: day_sum_def day_count_def)
qed

lemma city_frame_lookup:
  "map_of (city_frame (daily_agg kept) c) z =
     (if z \<in> city_days kept c then Some (day_sum kept c z, day_count kept c z) else None)"
proof (cases "z \<in> city_days kept c")
  case True
  then have "(z, day_sum kept c z, day_count kept c z) \<in> set (city_frame (daily_agg kept) c)"
    by (simp add: city_frame_set)
  with city_frame_distinct [of kept c] True show ?thesis
    by simp
next
  case False
  then have "z \<notin> fst ` set (city_frame (daily_agg kept) c)"
    using city_frame_dates [of kept c] by simp
  with False show ?thesis
    by (simp add: map_of_eq_None_iff)
qed

lemma reindex_city_frame:
  "reindex (city_frame (daily_agg kept) c) dates =
     map (\<lambda>z. (z, day_sum kept c z, day_count kept c z)) dates"
  unfolding reindex_def
  by (rule map_cong) (auto simp add: city_frame_lookup day_empty)


lemma date_range_length: "length (date_range lo hi) = nat (hi - lo + 1)"
  by (simp add: date_range_def)

lemma date_range_nth: "i < length (date_range lo hi) \<Longrightarrow> date_range lo hi ! i = lo + int i"
  by (simp add: date_range_def)

lemma date_range_set: "set (date_range lo hi) = {lo..hi}"
proof -
  have "\<And>z. lo \<le> z \<Longrightarrow> z \<le> hi \<Longrightarrow> z \<in> (\<lambda>k. lo + int k) ` {0..<nat (hi - lo + 1)}"
  proof -
    fix z assume "lo \<le> z" "z \<le> hi"
    then have "z = lo + int (nat (z - lo))" "nat (z - lo) \<in> {0..<nat (hi - lo + 1)}"
      by auto
    then show "z \<in> (\<lambda>k. lo + int k) ` {0..<nat (hi - lo + 1)}"
      by (rule image_eqI)
  qed
  then show ?thesis
    by (auto simp add: date_range_def)
qed

lemma rolling_sum_nth:
  "i < length xs \<Longrightarrow> rolling_sum w xs ! i = sum_list (drop (Suc i - w) (take (Suc i) xs))"
  by (simp add: rolling_sum_def)

lemma window_dates:
  assumes "i < length (date_range lo hi)"
  shows "drop (Suc i - 7) (take (Suc i) (map f (date_range lo hi)))
         = map f (date_range (max lo (lo + int i - 6)) (lo + int i))"
proof -
  let ?n = "nat (hi - lo + 1)"
  let ?m = "Suc i - 7"
  from assms have i: "i < ?n" by (simp add: date_range_def)
  have "take (Suc i) (map f (date_range lo hi)) = map (\<lambda>k. f (lo + int k)) [0..<Suc i]"
    using i by (simp add: date_range_def take_map take_upt comp_def del: upt_Suc)
  then have l: "drop ?m (take (Suc i) (map f (date_range lo hi))) = map (\<lambda>k. f (lo + int k)) [?m..<Suc i]"
    by (simp add: drop_map drop_upt del: upt_Suc)
  have a: "max lo (lo + int i - 6) = lo + int ?m" by auto
  have n: "nat (lo + int i - (lo + int ?m) + 1) = Suc i - ?m" by auto
  have "[?m..<Suc i] = map (\<lambda>k. k + ?m) [0..<Suc i - ?m]"
    by (simp add: map_add_upt del: upt_Suc)
  then have "map (\<lambda>k. f (lo + int k)) [?m..<Suc i]
      = map (\<lambda>k. f (lo + int ?m + int k)) [0..<Suc i - ?m]"
    by (simp add: comp_def add.commute add.left_commute del: upt_Suc)
  also have "\<dots> = map f (date_range (lo + int ?m) (lo + int i))"
    by (simp only: date_range_def n map_map comp_def)
  finally show ?thesis
    by (simp only: l a)
qed

lemma window_dates_norm:
  assumes "i < length (date_range lo hi)"
  shows "drop (i - 6) (take (Suc i) (map f (date_range lo hi)))
         = map f (date_range (max lo (lo + int i - 6)) (lo + int i))"
proof -
  have "Suc i - 7 = i - 6" by simp
  with window_dates [OF assms, of f] show ?thesis by simp
qed

lemma city_series_rows:
  "city_series kept c =
     map (\<lambda>i. \<lparr>d_date = Min (city_days kept c) + int i, d_City = c,
               d_index_sum = day_sum kept c (Min (city_days kept c) + int i),
               d_games = day_count kept c (Min (city_days kept c) + int i),
               d_index_sum_7d = sum_list (map (day_sum kept c)
                 (date_range (max (Min (city_days kept c)) (Min (city_days kept c) + int i - 6))
                    (Min (city_days kept c) + int i))),
               d_games_7d = sum_list (map (day_count kept c)
                 (date_range (max (Min (city_days kept c)) (Min (city_days kept c) + int i - 6))
                    (Min (city_days kept c) + int i)))\<rparr>)
         [0..<length (date_range (Min (city_days kept c)) (Max (city_days kept c)))]"
proof -
  let ?lo = "Min (city_days kept c)" and ?hi = "Max (city_days kept c)"
  let ?dates = "date_range ?lo ?hi"
  let ?g' = "map (\<lambda>z. (z, day_sum kept c z, day_count kept c z)) ?dates"
  have s: "map (\<lambda>r. fst (snd r)) ?g' = map (day_sum kept c) ?dates"
      "map (\<lambda>r. snd (snd r)) ?g' = map (day_count kept c) ?dates"
    by (simp_all add: comp_def)
  have "city_series kept c =
      map (\<lambda>i. \<lparr>d_date = fst (?g' ! i), d_City = c,
                d_index_sum = fst (snd (?g' ! i)), d_games = snd (snd (?g' ! i)),
                d_index_sum_7d = rolling_sum 7 (map (day_sum kept c) ?dates) ! i,
                d_games_7d = rolling_sum 7 (map (day_count kept c) ?dates) ! i\<rparr>)
          [0..<length ?g']"
    unfolding city_series_def Let_def city_frame_dates reindex_city_frame s ..
  also have "\<dots> = map (\<lambda>i. \<lparr>d_date = ?lo + int i, d_City = c,
               d_index_sum = day_sum kept c (?lo + int i),
               d_games = day_count kept c (?lo + int i),
               d_index_sum_7d = sum_list (map (day_sum kept c)
                 (date_range (max ?lo (?lo + int i - 6)) (?lo + int i))),
               d_games_7d = sum_list (map (day_count kept c)
                 (date_range (max ?lo (?lo + int i - 6)) (?lo + int i)))\<rparr>)
         [0..<length ?dates]"
  proof (rule map_cong)
    show "[0..<length ?g'] = [0..<length ?dates]" by simp
  next
    fix i assume "i \<in> set [0..<length ?dates]"
    then have i: "i < length ?dates" by simp
    then show "\<lparr>d_date = fst (?g' ! i), d_City = c,
                d_index_sum = fst (snd (?g' ! i)), d_games = snd (snd (?g' ! i)),
                d_index_sum_7d = rolling_sum 7 (map (day_sum kept c) ?dates) ! i,
                d_games_7d = rolling_sum 7 (map (day_count kept c) ?dates) ! i\<rparr>
           = \<lparr>d_date = ?lo + int i, d_City = c,
               d_index_sum = day_sum kept c (?lo + int i),
               d_games = day_count kept c (?lo + int i),
               d_index_sum_7d = sum_list (map (day_sum kept c)
                 (date_range (max ?lo (?lo + int i - 6)) (?lo + int i))),
               d_games_7d = sum_list (map (day_count kept c)
                 (date_range (max ?lo (?lo + int i - 6)) (?lo + int i)))\<rparr>"
      by (simp add: rolling_sum_nth window_dates_norm date_range_nth)
  qed
  finally show ?thesis .
qed


lemma city_days_finite: "finite (city_days kept c)"
proof -
  have "city_days kept c \<subseteq> (\<lambda>r. fst (snd r)) ` set kept"
    by (force simp add: city_days_def)
  then show ?thesis by (rule finite_subset) simp
qed

lemma city_series_dates:
  "map d_date (city_series kept c) = date_range (Min (city_days kept c)) (Max (city_days kept c))"
  by (simp add: city_series_rows comp_def date_range_def)

lemma city_series_row:
  assumes "row \<in> set (city_series kept c)"
  shows "d_City row = c \<and>
         d_index_sum row = day_sum kept c (d_date row) \<and>
         d_games row = day_count kept c (d_date row) \<and>
         d_index_sum_7d row = sum_list (map (day_sum kept c)
           (date_range (max (Min (city_days kept c)) (d_date row - 6)) (d_date row))) \<and>
         d_games_7d row = sum_list (map (day_count kept c)
           (date_range (max (Min (city_days kept c)) (d_date row - 6)) (d_date row)))"
  using assms by (subst (asm) city_series_rows) auto

lemma sum_list_single:
  fixes f :: "int \<Rightarrow> 'a::comm_monoid_add"
  assumes "distinct xs" and "z \<in> set xs" and "\<forall>x \<in> set xs. x \<noteq> z \<longrightarrow> f x = 0"
  shows "sum_list (map f xs) = f z"
proof -
  have "sum_list (map f xs) = sum f (set xs)"
    using assms(1) by (rule sum_list_distinct_conv_sum_set)
  also have "\<dots> = f z + sum f (set xs - {z})"
    using assms(2) by (simp add: sum.remove)
  also have "sum f (set xs - {z}) = 0"
    using assms(3) by (intro sum.neutral) auto
  finally show ?thesis by simp
qed

lemma date_range_distinct: "distinct (date_range lo hi)"
  by (simp add: date_range_def distinct_map inj_on_def)

lemma gap_scenario:
  assumes "city_days kept c = {d, d + 9}"
  shows "map d_date (city_series kept c) = date_range d (d + 9) \<and>
         (\<forall>row \<in> set (city_series kept c).
            (d < d_date row \<and> d_date row < d + 9 \<longrightarrow> d_index_sum row = 0 \<and> d_games row = 0) \<and>
            (d_date row = d + 9 \<longrightarrow>
               d_index_sum_7d row = day_sum kept c (d + 9) \<and>
               d_games_7d row = day_count kept c (d + 9)))"
proof -
  have lo: "Min (city_days kept c) = d" and hi: "Max (city_days kept c) = d + 9"
    by (simp_all add: assms)
  have zero: "\<And>z. z \<noteq> d \<Longrightarrow> z \<noteq> d + 9 \<Longrightarrow> day_sum kept c z = 0 \<and> day_count kept c z = 0"
    by (rule day_empty) (simp add: assms)
  have w: "max d (d + 9 - 6) = d + 3" by simp
  have in_w: "d + 9 \<in> set (date_range (d + 3) (d + 9))"
    by (simp add: date_range_set)
  have out_w: "\<forall>x \<in> set (date_range (d + 3) (d + 9)). x \<noteq> d + 9 \<longrightarrow> day_sum kept c x = 0"
    "\<forall>x \<in> set (date_range (d + 3) (d + 9)). x \<noteq> d + 9 \<longrightarrow> day_count kept c x = 0"
    using zero by (auto simp add: date_range_set)
  have s7: "sum_list (map (day_sum kept c) (date_range (d + 3) (d + 9))) = day_sum kept c (d + 9)"
    "sum_list (map (day_count kept c) (date_range (d + 3) (d + 9))) = day_count kept c (d + 9)"
    using sum_list_single [OF date_range_distinct in_w out_w(1)]
      sum_list_single [OF date_range_distinct in_w out_w(2)] by simp_all
  show ?thesis
  proof (intro conjI ballI impI)
    show "map d_date (city_series kept c) = date_range d (d + 9)"
      by (simp add: city_series_dates lo hi)
  next
    fix row assume r: "row \<in> set (city_series kept c)" and "d < d_date row \<and> d_date row < d + 9"
    with zero [of "d_date row"] city_series_row [OF r]
    show "d_index_sum row = 0" "d_games row = 0" by simp_all
  next
    fix row assume r: "row \<in> set (city_series kept c)" and e: "d_date row = d + 9"
    from city_series_row [OF r]
    have "d_index_sum_7d row = sum_list (map (day_sum kept c)
           (date_range (max (Min (city_days kept c)) (d_date row - 6)) (d_date row)))"
      and "d_games_7d row = sum_list (map (day_count kept c)
           (date_range (max (Min (city_days kept c)) (d_date row - 6)) (d_date row)))"
      by blast+
    then show "d_index_sum_7d row = day_sum kept c (d + 9)" "d_games_7d row = day_count kept c (d + 9)"
      by (simp_all only: e lo w s7)
  qed
qed

lemma city_daily_7d_set:
  "set (city_daily_7d df) =
     strftime_row ` (\<Union>c \<in> fst ` set (kept_rows df). set (city_series (kept_rows df) c))"
  by (simp add: city_daily_7d_def Let_def)


text \<open>
  Claim C4, as the code has it. The script first drops the rows without a date or a city
  and the rows dated before 2022-01-01. Of the rows it keeps: the daily aggregation has
  one row per (city, date); the series of a city has one row for every calendar day from
  the city's first to its last kept date, with the sum and the number of its games of the
  day, zero on a day without games; \<open>index_sum_7d\<close> and \<open>games_7d\<close> are the sums over the
  day and the six days before it, as far as the series reaches back. For a city with
  games only on a day \<open>d\<close> and on \<open>d + 9\<close>, the days between are zero rows and the rolling
  sum on \<open>d + 9\<close> is that day's own sum. The frame written holds exactly these rows.
\<close>

theorem city_daily_dense_calendar:
  fixes df :: "long_row list" and c :: string
  defines "kept \<equiv> kept_rows df"
  assumes "c \<in> fst ` set kept"
  shows "(\<forall>c' z s. ((c', z, s) \<in> set kept) =
            (\<exists>r \<in> set df. l_City r = Some c' \<and> to_datetime (l_date r) = Some z \<and> cutoff \<le> z \<and>
               l_index_score r = s)) \<and>
         distinct (map fst (daily_agg kept)) \<and>
         set (map fst (daily_agg kept)) = (\<lambda>r. (fst r, fst (snd r))) ` set kept \<and>
         Min (city_days kept c) \<in> city_days kept c \<and> Max (city_days kept c) \<in> city_days kept c \<and>
         map d_date (city_series kept c) = date_range (Min (city_days kept c)) (Max (city_days kept c)) \<and>
         (\<forall>row \<in> set (city_series kept c).
            d_City row = c \<and>
            d_index_sum row = day_sum kept c (d_date row) \<and>
            d_games row = day_count kept c (d_date row) \<and>
            (d_date row \<notin> city_days kept c \<longrightarrow> d_index_sum row = 0 \<and> d_games row = 0) \<and>
            d_index_sum_7d row = sum_list (map (day_sum kept c)
              (date_range (max (Min (city_days kept c)) (d_date row - 6)) (d_date row))) \<and>
            d_games_7d row = sum_list (map (day_count kept c)
              (date_range (max (Min (city_days kept c)) (d_date row - 6)) (d_date row)))) \<and>
         (\<forall>d. city_days kept c = {d, d + 9} \<longrightarrow>
            map d_date (city_series kept c) = date_range d (d + 9) \<and>
            (\<forall>row \<in> set (city_series kept c).
               (d < d_date row \<and> d_date row < d + 9 \<longrightarrow> d_index_sum row = 0 \<and> d_games row = 0) \<and>
               (d_date row = d + 9 \<longrightarrow>
                  d_index_sum_7d row = day_sum kept c (d + 9) \<and>
                  d_games_7d row = day_count kept c (d + 9)))) \<and>
         set (city_daily_7d df) =
           strftime_row ` (\<Union>c' \<in> fst ` set kept. set (city_series kept c'))"
proof -
  from assms(2) have ne: "city_days kept c \<noteq> {}"
    by (force simp add: city_days_def)
  have ends: "Min (city_days kept c) \<in> city_days kept c" "Max (city_days kept c) \<in> city_days kept c"
    using ne by (simp_all add: city_days_finite)
  have k: "\<forall>c' z s. ((c', z, s) \<in> set kept) =
            (\<exists>r \<in> set df. l_City r = Some c' \<and> to_datetime (l_date r) = Some z \<and> cutoff \<le> z \<and>
               l_index_score r = s)"
    by (simp add: kept_def kept_rows_iff)
  have rows: "\<forall>row \<in> set (city_series kept c).
            d_City row = c \<and>
            d_index_sum row = day_sum kept c (d_date row) \<and>
            d_games row = day_count kept c (d_date row) \<and>
            (d_date row \<notin> city_days kept c \<longrightarrow> d_index_sum row = 0 \<and> d_games row = 0) \<and>
            d_index_sum_7d row = sum_list (map (day_sum kept c)
              (date_range (max (Min (city_days kept c)) (d_date row - 6)) (d_date row))) \<and>
            d_games_7d row = sum_list (map (day_count kept c)
              (date_range (max (Min (city_days kept c)) (d_date row - 6)) (d_date row)))"
    using city_series_row [of _ kept c] day_empty [of _ kept c] by metis
  have out: "set (city_daily_7d df) =
           strftime_row ` (\<Union>c' \<in> fst ` set kept. set (city_series kept c'))"
    by (simp add: kept_def city_daily_7d_set)
  from k daily_agg_one_row_per_day [of kept] ends city_series_dates [of kept c] rows
    gap_scenario [of kept c] out
  show ?thesis by blast
qed

theorem city_daily_dense_calendar_witness:
  "''Toronto'' \<in> fst ` set (kept_rows gap_example) \<and>
   city_days (kept_rows gap_example) ''Toronto'' = {19417, 19417 + 9} \<and>
   map d_date (city_series (kept_rows gap_example) ''Toronto'') = date_range 19417 (19417 + 9) \<and>
   map d_date (city_daily_7d gap_example) =
     [''2023-03-01'', ''2023-03-02'', ''2023-03-03'', ''2023-03-04'', ''2023-03-05'',
      ''2023-03-06'', ''2023-03-07'', ''2023-03-08'', ''2023-03-09'', ''2023-03-10''] \<and>
   map d_index_sum (city_daily_7d gap_example) = [2, 0, 0, 0, 0, 0, 0, 0, 0, - 1] \<and>
   map d_index_sum_7d (city_daily_7d gap_example) = [2, 2, 2, 2, 2, 2, 2, 0, 0, - 1]"
proof -
  have h: "''Toronto'' \<in> fst ` set (kept_rows gap_example)"
    by code_simp
  have "kept_rows gap_example = [(''Toronto'', 19417, 1), (''Toronto'', 19426, - 1), (''Toronto'', 19417, 1)]"
    by code_simp
  then have d: "city_days (kept_rows gap_example) ''Toronto'' = {19417, 19417 + 9}"
    by (auto simp add: city_days_def)
  have e: "map d_date (city_daily_7d gap_example) =
     [''2023-03-01'', ''2023-03-02'', ''2023-03-03'', ''2023-03-04'', ''2023-03-05'',
      ''2023-03-06'', ''2023-03-07'', ''2023-03-08'', ''2023-03-09'', ''2023-03-10'']"
    "map d_index_sum (city_daily_7d gap_example) = [2, 0, 0, 0, 0, 0, 0, 0, 0, - 1]"
    "map d_index_sum_7d (city_daily_7d gap_example) = [2, 2, 2, 2, 2, 2, 2, 0, 0, - 1]"
    by code_simp+
  from city_daily_dense_calendar [OF h] d
  have "map d_date (city_series (kept_rows gap_example) ''Toronto'') = date_range 19417 (19417 + 9)"
    by blast
  with h d e show ?thesis by blast
qed

text \<open>
  The claim as stated spans each city's first to last observed date. A city with a game on
  2021-12-30 and one on 2022-01-02 has a single row in the result, for 2022-01-02.
\<close>

theorem city_daily_counterexample:
  "map (\<lambda>r. to_datetime (l_date r)) cutoff_example = [Some 18991, Some 18994] \<and>
   map d_date (city_daily_7d cutoff_example) = [''2022-01-02'']"
  by code_simp

section \<open>Properties of the stages on missing input\<close>

text \<open>The daily 7-day stage on a file that exists: it fails when the filters leave no row.\<close>

lemma city_daily_main_no_rows:
  "kept_rows df = [] \<Longrightarrow> city_daily_main (Some df) = Inl AttributeError"
  by (simp add: city_daily_main_def)

lemma city_daily_main_rows:
  "kept_rows df \<noteq> [] \<Longrightarrow> city_daily_main (Some df) = Inr (city_daily_7d df)"
  by (simp add: city_daily_main_def)

text \<open>
  Claim C8, as the code has it. Without all\_long.csv the daily 7-day stage raises
  FileNotFoundError before it writes anything, and it raises this error for no file that
  exists. The ledger stage, the rollup stage and the NHL loader do not fail on a missing
  input: without games.csv the ledger stage writes an empty ledger, whatever the scoring
  configuration; without team\_game\_results.csv or without teams.csv the rollup stage
  returns without output, whatever the other file holds; without its raw file the NHL
  loader returns and leaves the canonical tables as they were.
\<close>

theorem missing_input_behaviour:
  "city_daily_main None = Inl FileNotFoundError \<and>
   city_daily_main (Some df) \<noteq> Inl FileNotFoundError \<and>
   ledger_main None scoring_json = Inr [] \<and>
   rollups_main None teams_file = Inr None \<and>
   rollups_main master_file None = Inr None \<and>
   load_nhl None st = st"
  by (simp add: city_daily_main_def ledger_main_def rollups_main_def compute_rollups_def
      load_nhl_def compute_master_def safe_read_csv_def)

text \<open>
  The claim as stated has every stage fail on a missing input. The ledger stage returns and
  writes, the rollup stage and the NHL loader return.
\<close>

theorem missing_input_counterexample:
  "ledger_main None None = Inr [] \<and> rollups_main None None = Inr None \<and>
   load_nhl None empty_store = empty_store"
  by (simp add: ledger_main_def rollups_main_def compute_rollups_def compute_master_def
      load_nhl_def safe_read_csv_def)

end
